theory Spec2Isabelle
  imports Complex_Main "HOL-Library.Sublist"
begin

section \<open>The product catalogue server (src/server.js)\<close>

text \<open>
  The server is an Express application: a stack of layers (middleware and routes) that every
  request walks in registration order, over one module-level array \<open>products\<close>.
  The model below follows the file top to bottom: the JavaScript values that travel in
  request bodies, the built-ins the handlers call (\<open>parseInt\<close>, \<open>toLowerCase\<close>,
  \<open>includes\<close>, \<open>slice\<close>), the three error classes, every handler in the order of
  its registration, and Express's walk over the stack.

  Conventions of the model.
  \<^item> Strings are ASCII \<open>char\<close> lists; \<open>toLowerCase\<close> maps \<open>A..Z\<close> to \<open>a..z\<close>.
  \<^item> A JavaScript number that holds an integer (an id, an index) is an \<open>int\<close>; this
    is exact below \<open>2^53\<close>. The page and the limit of the list handler are kept apart
    from the doubles beyond that bound. Numbers inside a request body are only stored,
    tested for truthiness and for their type, and are rationals.
  \<^item> A request is given after body and query parsing: its path as the list of its
    non-empty segments, its query as a map to parsed values, its JSON body as an
    association list with distinct keys (the empty list when there is no body, which
    \<open>express.json()\<close> of Express 4 leaves as the empty object).
  \<^item> A property that is absent from an object reads as \<open>undefined\<close>.
  \<^item> Literal path segments are compared as they are written, so the paths of the model
    are in the letter case of the registrations; Express serves a HEAD request through
    the GET routes, so such a request is a GET here.
\<close>

subsection \<open>JavaScript values\<close>

datatype jsval =
    JUndefined
  | JNull
  | JBool bool
  | JNum rat
  | JStr string
  | JArr "jsval list"
  | JObj "(string \<times> jsval) list"

text \<open>Truthiness, as \<open>x || d\<close> tests it, and its negation \<open>!x\<close>.\<close>

fun truthy :: "jsval \<Rightarrow> bool" where
  "truthy JUndefined = False"
| "truthy JNull = False"
| "truthy (JBool b) = b"
| "truthy (JNum r) = (r \<noteq> 0)"
| "truthy (JStr s) = (s \<noteq> [])"
| "truthy (JArr xs) = True"
| "truthy (JObj kvs) = True"

definition falsy :: "jsval \<Rightarrow> bool" where
  "falsy v = (\<not> truthy v)"

text \<open>\<open>x == null\<close> holds of \<open>null\<close> and \<open>undefined\<close> only; \<open>a ?? b\<close> is \<open>b\<close> exactly then.\<close>

fun nullish :: "jsval \<Rightarrow> bool" where
  "nullish JUndefined = True"
| "nullish JNull = True"
| "nullish v = False"

definition coalesce :: "jsval \<Rightarrow> jsval \<Rightarrow> jsval" where
  "coalesce a b = (if nullish a then b else a)"

fun typeof :: "jsval \<Rightarrow> string" where
  "typeof JUndefined = ''undefined''"
| "typeof JNull = ''object''"
| "typeof (JBool b) = ''boolean''"
| "typeof (JNum r) = ''number''"
| "typeof (JStr s) = ''string''"
| "typeof (JArr xs) = ''object''"
| "typeof (JObj kvs) = ''object''"

text \<open>Reading a property of a parsed JSON object: \<open>undefined\<close> when the key is absent.\<close>

definition get_prop :: "(string \<times> jsval) list \<Rightarrow> string \<Rightarrow> jsval" where
  "get_prop obj k = (case map_of obj k of None \<Rightarrow> JUndefined | Some v \<Rightarrow> v)"

subsection \<open>Strings\<close>

definition to_lower_char :: "char \<Rightarrow> char" where
  "to_lower_char c =
     (let n = (of_char c :: nat) in if 65 \<le> n \<and> n \<le> 90 then char_of (n + 32) else c)"

definition toLowerCase :: "string \<Rightarrow> string" where
  "toLowerCase s = map to_lower_char s"

text \<open>\<open>hay.includes(needle)\<close>: the needle occurs as a contiguous run of the haystack.\<close>

definition str_includes :: "string \<Rightarrow> string \<Rightarrow> bool" where
  "str_includes hay needle = sublist needle hay"

subsection \<open>parseInt without a radix\<close>

text \<open>
  ECMAScript's \<open>parseInt(string)\<close>: skip leading white space, read an optional sign, take
  radix 16 after a \<open>0x\<close> or \<open>0X\<close> prefix and radix 10 otherwise, and read the longest
  run of digits of that radix. No digit at all gives \<open>NaN\<close>, here \<open>None\<close>.
\<close>

definition is_white :: "char \<Rightarrow> bool" where
  "is_white c = ((of_char c :: nat) \<in> {9, 10, 11, 12, 13, 32})"

definition digit_of :: "char \<Rightarrow> nat option" where
  "digit_of c =
     (let n = (of_char c :: nat) in
      if 48 \<le> n \<and> n \<le> 57 then Some (n - 48)
      else if 97 \<le> n \<and> n \<le> 122 then Some (n - 87)
      else if 65 \<le> n \<and> n \<le> 90 then Some (n - 55)
      else None)"

definition is_digit :: "nat \<Rightarrow> char \<Rightarrow> bool" where
  "is_digit radix c = (case digit_of c of None \<Rightarrow> False | Some d \<Rightarrow> d < radix)"

definition digits_value :: "nat \<Rightarrow> string \<Rightarrow> nat" where
  "digits_value radix ds =
     foldl (\<lambda>acc c. acc * radix + (case digit_of c of None \<Rightarrow> 0 | Some d \<Rightarrow> d)) 0 ds"

fun strip_sign :: "string \<Rightarrow> int \<times> string" where
  "strip_sign [] = (1, [])"
| "strip_sign (c # cs) =
     (if c = CHR ''-'' then (- 1, cs) else if c = CHR ''+'' then (1, cs) else (1, c # cs))"

fun strip_prefix :: "string \<Rightarrow> nat \<times> string" where
  "strip_prefix (a # b # cs) =
     (if a = CHR ''0'' \<and> (b = CHR ''x'' \<or> b = CHR ''X'') then (16, cs) else (10, a # b # cs))"
| "strip_prefix cs = (10, cs)"

definition parseInt :: "string \<Rightarrow> int option" where
  "parseInt str =
     (case strip_sign (dropWhile is_white str) of (sign, s1) \<Rightarrow>
      case strip_prefix s1 of (radix, s2) \<Rightarrow>
      let z = takeWhile (is_digit radix) s2
      in if z = [] then None else Some (sign * int (digits_value radix z)))"

text \<open>
  The value \<open>parseInt\<close> returns is a double. It is the integer read when that integer
  is below \<open>2^53\<close> in magnitude; a larger one is rounded to a nearby double (or to
  \<open>Infinity\<close>), in a way the language leaves in part to the implementation. The page
  arithmetic of the list handler is modelled on the exact values only: \<open>Rounded\<close>
  stands for a result beyond them.
\<close>

datatype js_integer = NaN | Exact int | Rounded

definition to_number :: "int option \<Rightarrow> js_integer" where
  "to_number r =
     (case r of None \<Rightarrow> NaN | Some n \<Rightarrow> if \<bar>n\<bar> < 2 ^ 53 then Exact n else Rounded)"

text \<open>\<open>parseInt(x) || d\<close>: \<open>NaN\<close> and \<open>0\<close> are falsy.\<close>

definition or_default :: "js_integer \<Rightarrow> int \<Rightarrow> js_integer" where
  "or_default r d =
     (case r of
        NaN \<Rightarrow> Exact d
      | Exact n \<Rightarrow> if n = 0 then Exact d else Exact n
      | Rounded \<Rightarrow> Rounded)"

subsection \<open>Array.prototype.slice\<close>

text \<open>
  \<open>xs.slice(start, end)\<close>: a negative bound counts from the end of the array, and both
  bounds are clamped to \<open>0 .. length\<close>.
\<close>

definition clamp_index :: "int \<Rightarrow> int \<Rightarrow> int" where
  "clamp_index len i = (if i < 0 then max (len + i) 0 else min i len)"

definition slice :: "'a list \<Rightarrow> int \<Rightarrow> int \<Rightarrow> 'a list" where
  "slice xs start stop =
     (let len = int (length xs); k = clamp_index len start; fin = clamp_index len stop
      in take (nat (fin - k)) (drop (nat k) xs))"

subsection \<open>Error classes (lines 7 to 29)\<close>

text \<open>
  An \<open>Error\<close> object as the error translator reads it: \<open>name\<close>, \<open>message\<close> and the
  optional \<open>statusCode\<close>. A \<open>TypeError\<close> is what the engine throws when a method is
  called on a value that does not have it; it carries no \<open>statusCode\<close>, and the wording
  of its message is the engine's.
\<close>

record js_error =
  err_name :: string
  err_message :: string
  statusCode :: "nat option"

definition NotFoundError :: "string \<Rightarrow> js_error" where
  "NotFoundError msg =
     \<lparr>err_name = ''NotFoundError'', err_message = msg, statusCode = Some 404\<rparr>"

definition ValidationError :: "string \<Rightarrow> js_error" where
  "ValidationError msg =
     \<lparr>err_name = ''ValidationError'', err_message = msg, statusCode = Some 400\<rparr>"

definition UnauthorizedError :: "string \<Rightarrow> js_error" where
  "UnauthorizedError msg =
     \<lparr>err_name = ''UnauthorizedError'', err_message = msg, statusCode = Some 401\<rparr>"

definition TypeError :: "string \<Rightarrow> js_error" where
  "TypeError msg = \<lparr>err_name = ''TypeError'', err_message = msg, statusCode = None\<rparr>"

text \<open>\<open>v.toLowerCase()\<close> on a value of a request body or of a stored record.\<close>

fun lower_of :: "jsval \<Rightarrow> js_error + string" where
  "lower_of (JStr s) = Inr (toLowerCase s)"
| "lower_of v = Inl (TypeError ''toLowerCase is not a function'')"

subsection \<open>Products and the store (lines 42 to 78)\<close>

text \<open>
  A product is the object literal of lines 73 to 77 and 136 to 143: a numeric \<open>id\<close> (field
  \<open>pid\<close> here) and five fields that hold whatever the request body held. The store is the
  array \<open>products\<close>, in array order.
\<close>

record product =
  pid :: int
  name :: jsval
  description :: jsval
  price :: jsval
  category :: jsval
  inStock :: jsval

definition mk_product :: "int \<Rightarrow> string \<Rightarrow> string \<Rightarrow> rat \<Rightarrow> string \<Rightarrow> bool \<Rightarrow> product" where
  "mk_product i n d pr c st =
     \<lparr>pid = i, name = JStr n, description = JStr d, price = JNum pr, category = JStr c,
      inStock = JBool st\<rparr>"

text \<open>
  The array is declared with \<open>const\<close> at line 42, with two records, and assigned again
  at line 72, with five. The routes are written against the second value, which is the
  initial store of the model; a store is otherwise any list of records.
\<close>

definition initial_products :: "product list" where
  "initial_products =
     [mk_product 1 ''Laptop'' ''15-inch screen'' (1899999 / 100) ''Electronics'' True,
      mk_product 2 ''Mouse'' ''Wireless mouse'' (39999 / 100) ''Accessories'' True,
      mk_product 3 ''Keyboard'' ''Mechanical RGB keyboard'' (129999 / 100) ''Accessories'' True,
      mk_product 4 ''Headphones'' ''Noise cancelling'' (259999 / 100) ''Electronics'' False,
      mk_product 5 ''Monitor'' ''27-inch display'' (349999 / 100) ''Electronics'' True]"

text \<open>What \<open>res.json(product)\<close> sends. On the wire \<open>JSON.stringify\<close> leaves out a
  property whose value is \<open>undefined\<close>; the model keeps it, with the value
  \<open>JUndefined\<close>.\<close>

definition product_json :: "product \<Rightarrow> jsval" where
  "product_json p =
     JObj [(''id'', JNum (of_int (pid p))), (''name'', name p),
           (''description'', description p), (''price'', price p),
           (''category'', category p), (''inStock'', inStock p)]"

subsection \<open>Requests and outcomes\<close>

text \<open>\<open>OTHER\<close> stands for the methods that no route is registered for.\<close>

datatype http_method = GET | POST | PUT | DELETE | OTHER

text \<open>A parsed query value: a string, or the array or object that repeated and bracketed
  keys produce.\<close>

datatype qval = QStr string | QArr "qval list" | QObj "(string \<times> qval) list"

fun join_comma :: "string list \<Rightarrow> string" where
  "join_comma [] = []"
| "join_comma [s] = s"
| "join_comma (s # t # ss) = s @ '','' @ join_comma (t # ss)"

fun q_string :: "qval \<Rightarrow> string" where
  "q_string (QStr s) = s"
| "q_string (QArr vs) = join_comma (map q_string vs)"
| "q_string (QObj kvs) = ''[object Object]''"

fun q_truthy :: "qval option \<Rightarrow> bool" where
  "q_truthy None = False"
| "q_truthy (Some (QStr s)) = (s \<noteq> [])"
| "q_truthy (Some v) = True"

fun q_lower :: "qval \<Rightarrow> js_error + string" where
  "q_lower (QStr s) = Inr (toLowerCase s)"
| "q_lower v = Inl (TypeError ''toLowerCase is not a function'')"

record request =
  req_method :: http_method
  path :: "string list"
  params :: "(string \<times> string) list"
  query :: "(string \<times> qval) list"
  headers :: "(string \<times> string) list"
  body :: "(string \<times> jsval) list"

text \<open>\<open>parseInt(x)\<close> of a value that may be \<open>undefined\<close>: \<open>parseInt(undefined)\<close> is
  \<open>NaN\<close>.\<close>

definition parseInt_opt :: "string option \<Rightarrow> int option" where
  "parseInt_opt x = (case x of None \<Rightarrow> None | Some s \<Rightarrow> parseInt s)"

definition q_param :: "request \<Rightarrow> string \<Rightarrow> qval option" where
  "q_param req k = map_of (query req) k"

definition q_int :: "request \<Rightarrow> string \<Rightarrow> js_integer" where
  "q_int req k = to_number (parseInt_opt (map_option q_string (q_param req k)))"

definition id_param :: "request \<Rightarrow> int option" where
  "id_param req = parseInt_opt (map_of (params req) ''id'')"

text \<open>\<open>p.id === n\<close>: never true of \<open>NaN\<close>.\<close>

definition has_id :: "int option \<Rightarrow> product \<Rightarrow> bool" where
  "has_id n p = (case n of None \<Rightarrow> False | Some i \<Rightarrow> pid p = i)"

text \<open>
  What a layer does with a request: it sends a response (status and JSON body), calls
  \<open>next()\<close>, calls \<open>next(err)\<close> or throws, or returns without doing any of these, which
  leaves the request unanswered. \<open>Unmodelled\<close> marks the inputs on which a handler
  leaves the fragment of JavaScript this theory covers: a page or limit of \<open>2^53\<close> or
  more in the list handler, and inputs of handlers that the live routes shadow.
\<close>

datatype outcome =
    Respond nat jsval
  | Next
  | Fail js_error
  | NoResponse
  | Unmodelled

type_synonym handler = "request \<Rightarrow> product list \<Rightarrow> outcome \<times> product list"

subsection \<open>Helpers on the array\<close>

text \<open>\<open>xs.filter(f)\<close> with a callback that may throw: the first throw ends the filter.\<close>

fun filter_throw :: "('a \<Rightarrow> js_error + bool) \<Rightarrow> 'a list \<Rightarrow> js_error + 'a list" where
  "filter_throw f [] = Inr []"
| "filter_throw f (x # xs) =
     (case f x of
        Inl e \<Rightarrow> Inl e
      | Inr b \<Rightarrow>
          (case filter_throw f xs of
             Inl e \<Rightarrow> Inl e
           | Inr ys \<Rightarrow> Inr (if b then x # ys else ys)))"

text \<open>\<open>xs.findIndex(f)\<close>, with \<open>None\<close> for \<open>-1\<close>.\<close>

fun findIndex :: "('a \<Rightarrow> bool) \<Rightarrow> 'a list \<Rightarrow> nat option" where
  "findIndex f [] = None"
| "findIndex f (x # xs) = (if f x then Some 0 else map_option Suc (findIndex f xs))"

text \<open>Assigning to the fields of the object that \<open>xs.find(f)\<close> returned changes the
  first element that satisfies \<open>f\<close>, in place.\<close>

fun update_found :: "('a \<Rightarrow> bool) \<Rightarrow> ('a \<Rightarrow> 'a) \<Rightarrow> 'a list \<Rightarrow> 'a list" where
  "update_found f g [] = []"
| "update_found f g (x # xs) = (if f x then g x # xs else x # update_found f g xs)"

text \<open>\<open>xs.splice(i, 1)\<close> removes the element at \<open>i\<close>.\<close>

definition splice1 :: "nat \<Rightarrow> 'a list \<Rightarrow> 'a list" where
  "splice1 i xs = take i xs @ drop (Suc i) xs"

definition message_body :: "string \<Rightarrow> jsval" where
  "message_body msg = JObj [(''message'', JStr msg)]"

definition error_body :: "string \<Rightarrow> jsval" where
  "error_body msg = JObj [(''error'', JStr msg)]"

subsection \<open>Middleware registered first (lines 5 to 39, 61 to 63)\<close>

text \<open>\<open>express.json()\<close>: the request of the model already carries its parsed body.\<close>

definition express_json :: handler where
  "express_json req products = (Next, products)"

text \<open>\<open>logger\<close> writes a line to the console and calls \<open>next()\<close>.\<close>

definition logger :: handler where
  "logger req products = (Next, products)"

text \<open>\<open>asyncHandler(fn)\<close> passes a rejection of \<open>fn\<close> to \<open>next\<close>; a throw inside a
  handler of the model is already the outcome \<open>Fail\<close>.\<close>

definition asyncHandler :: "handler \<Rightarrow> handler" where
  "asyncHandler fn = fn"

subsection \<open>The routes of lines 84 to 190\<close>

text \<open>GET /api/products, lines 84 to 108.\<close>

definition category_equals :: "qval \<Rightarrow> product \<Rightarrow> js_error + bool" where
  "category_equals c p =
     (case lower_of (category p) of
        Inl e \<Rightarrow> Inl e
      | Inr a \<Rightarrow> (case q_lower c of Inl e \<Rightarrow> Inl e | Inr b \<Rightarrow> Inr (a = b)))"

definition filter_category :: "request \<Rightarrow> product list \<Rightarrow> js_error + product list" where
  "filter_category req products =
     (case q_param req ''category'' of
        None \<Rightarrow> Inr products
      | Some c \<Rightarrow>
          if q_truthy (Some c) then filter_throw (category_equals c) products
          else Inr products)"

definition page_body :: "int \<Rightarrow> int \<Rightarrow> product list \<Rightarrow> jsval" where
  "page_body page limit results =
     (let start = (page - 1) * limit;
          stop = start + limit;
          paginated = slice results start stop;
          totalPages = \<lceil>rat_of_int (int (length results)) / rat_of_int limit\<rceil>
      in JObj [(''page'', JNum (of_int page)),
               (''limit'', JNum (of_int limit)),
               (''totalPages'', JNum (of_int totalPages)),
               (''totalItems'', JNum (of_nat (length results))),
               (''products'', JArr (map product_json paginated))])"

definition list_products :: handler where
  "list_products req products =
     (case filter_category req products of
        Inl e \<Rightarrow> (Fail e, products)
      | Inr results \<Rightarrow>
          (case or_default (q_int req ''page'') 1 of
             Exact page \<Rightarrow>
               (case or_default (q_int req ''limit'') 2 of
                  Exact limit \<Rightarrow> (Respond 200 (page_body page limit results), products)
                | _ \<Rightarrow> (Unmodelled, products))
           | _ \<Rightarrow> (Unmodelled, products)))"

text \<open>GET /api/products/search, lines 111 to 122.\<close>

definition name_includes :: "qval \<Rightarrow> product \<Rightarrow> js_error + bool" where
  "name_includes nm p =
     (case lower_of (name p) of
        Inl e \<Rightarrow> Inl e
      | Inr a \<Rightarrow> (case q_lower nm of Inl e \<Rightarrow> Inl e | Inr b \<Rightarrow> Inr (str_includes a b)))"

definition search_products :: handler where
  "search_products req products =
     (case q_param req ''name'' of
        None \<Rightarrow> (Fail (ValidationError ''Please provide a search keyword''), products)
      | Some nm \<Rightarrow>
          if \<not> q_truthy (Some nm)
          then (Fail (ValidationError ''Please provide a search keyword''), products)
          else
            (case filter_throw (name_includes nm) products of
               Inl e \<Rightarrow> (Fail e, products)
             | Inr results \<Rightarrow>
                 if length results = 0
                 then (Fail (NotFoundError ''No products match your search''), products)
                 else (Respond 200
                         (JObj [(''count'', JNum (of_nat (length results))),
                                (''results'', JArr (map product_json results))]),
                       products)))"

text \<open>GET /api/products/:id, lines 126 to 132.\<close>

definition get_product :: handler where
  "get_product req products =
     (case find (has_id (id_param req)) products of
        None \<Rightarrow> (Respond 404 (message_body ''Product not found''), products)
      | Some product \<Rightarrow> (Respond 200 (product_json product), products))"

text \<open>POST /api/products, lines 135 to 147.\<close>

definition next_id :: "product list \<Rightarrow> int" where
  "next_id products = (if length products \<noteq> 0 then pid (last products) + 1 else 1)"

definition create_product :: handler where
  "create_product req products =
     (let newProduct =
            \<lparr>pid = next_id products,
             name = get_prop (body req) ''name'',
             description = get_prop (body req) ''description'',
             price = get_prop (body req) ''price'',
             category = get_prop (body req) ''category'',
             inStock = get_prop (body req) ''inStock''\<rparr>
      in (Respond 201 (product_json newProduct), products @ [newProduct]))"

text \<open>PUT /api/products/:id, lines 150 to 164.\<close>

definition overlay :: "(string \<times> jsval) list \<Rightarrow> product \<Rightarrow> product" where
  "overlay b product =
     product
       \<lparr>name := coalesce (get_prop b ''name'') (name product),
        description := coalesce (get_prop b ''description'') (description product),
        price := coalesce (get_prop b ''price'') (price product),
        category := coalesce (get_prop b ''category'') (category product),
        inStock := coalesce (get_prop b ''inStock'') (inStock product)\<rparr>"

definition update_product :: handler where
  "update_product req products =
     (case find (has_id (id_param req)) products of
        None \<Rightarrow> (Respond 404 (message_body ''Product not found''), products)
      | Some product \<Rightarrow>
          (Respond 200 (product_json (overlay (body req) product)),
           update_found (has_id (id_param req)) (overlay (body req)) products))"

text \<open>DELETE /api/products/:id, lines 167 to 175.\<close>

definition delete_product :: handler where
  "delete_product req products =
     (case findIndex (has_id (id_param req)) products of
        None \<Rightarrow> (Respond 404 (message_body ''Product not found''), products)
      | Some productIndex \<Rightarrow>
          (Respond 200
             (JObj [(''message'', JStr ''Product deleted successfully''),
                    (''deletedProduct'', JArr [product_json (products ! productIndex)])]),
           splice1 productIndex products))"

text \<open>
  GET /api/products/stats, lines 178 to 190. The accumulator is a plain object used as a
  dictionary: its keys are the categories converted to property keys, it inherits the
  members of \<open>Object.prototype\<close>, and it lists keys that look like array indices first.
  The model covers the stores in which every category is a string that is neither the
  name of an inherited member nor a run of digits, and counts in order of first
  occurrence.
\<close>

definition inherited_names :: "string list" where
  "inherited_names =
     [''constructor'', ''__proto__'', ''hasOwnProperty'', ''isPrototypeOf'',
      ''propertyIsEnumerable'', ''toLocaleString'', ''toString'', ''valueOf'',
      ''__defineGetter__'', ''__defineSetter__'', ''__lookupGetter__'', ''__lookupSetter__'']"

fun plain_key :: "jsval \<Rightarrow> bool" where
  "plain_key (JStr s) = (s \<notin> set inherited_names \<and> (s = [] \<or> \<not> list_all (is_digit 10) s))"
| "plain_key v = False"

fun key_of :: "jsval \<Rightarrow> string" where
  "key_of (JStr s) = s"
| "key_of v = []"

fun bump :: "string \<Rightarrow> (string \<times> nat) list \<Rightarrow> (string \<times> nat) list" where
  "bump k [] = [(k, 1)]"
| "bump k ((k', n) # acc) = (if k = k' then (k', n + 1) # acc else (k', n) # bump k acc)"

definition count_by_category :: "product list \<Rightarrow> (string \<times> nat) list" where
  "count_by_category products = foldl (\<lambda>acc p. bump (key_of (category p)) acc) [] products"

definition product_stats :: handler where
  "product_stats req products =
     (if list_all (\<lambda>p. plain_key (category p)) products
      then (Respond 200
              (JObj [(''totalProducts'', JNum (of_nat (length products))),
                     (''countByCategory'',
                      JObj (map (\<lambda>(k, n). (k, JNum (of_nat n))) (count_by_category products)))]),
            products)
      else (Unmodelled, products))"

subsection \<open>The gates (lines 201 to 222)\<close>

definition VALID_API_KEY :: string where
  "VALID_API_KEY = ''12345''"

definition authenticate :: handler where
  "authenticate req products =
     (case map_of (headers req) ''x-api-key'' of
        None \<Rightarrow>
          (Respond 401 (error_body ''Unauthorized: invalid or missing API key''), products)
      | Some apiKey \<Rightarrow>
          if apiKey \<noteq> [] \<and> apiKey = VALID_API_KEY then (Next, products)
          else (Respond 401 (error_body ''Unauthorized: invalid or missing API key''),
                products))"

definition validateProduct :: handler where
  "validateProduct req products =
     (let name = get_prop (body req) ''name'';
          description = get_prop (body req) ''description'';
          price = get_prop (body req) ''price'';
          category = get_prop (body req) ''category'';
          inStock = get_prop (body req) ''inStock''
      in if falsy name \<or> falsy description \<or> nullish price \<or> falsy category
            \<or> nullish inStock
         then (Respond 400 (error_body ''All product fields are required''), products)
         else if typeof price \<noteq> ''number''
         then (Respond 400 (error_body ''Price must be a number''), products)
         else if typeof inStock \<noteq> ''boolean''
         then (Respond 400 (error_body ''inStock must be boolean''), products)
         else (Next, products))"

subsection \<open>The routes of lines 227 to 266\<close>

text \<open>POST /api/products at line 227: the handler body is empty, so it neither responds
  nor calls \<open>next\<close>.\<close>

definition create_product_empty :: handler where
  "create_product_empty req products = (NoResponse, products)"

text \<open>GET /api/products at line 234.\<close>

definition list_products_public :: handler where
  "list_products_public req products = (Respond 200 (JArr (map product_json products)), products)"

text \<open>GET /api/products/:id at line 239.\<close>

definition get_product_public :: handler where
  "get_product_public req products =
     (case find (has_id (id_param req)) products of
        None \<Rightarrow> (Respond 404 (error_body ''Product not found''), products)
      | Some product \<Rightarrow> (Respond 200 (product_json product), products))"

text \<open>
  POST /api/products at line 246 and PUT /api/products/:id at line 253 copy every key of
  the body into the record (\<open>...req.body\<close>, \<open>Object.assign\<close>). The record type of the
  model has the five body fields only, so these two handlers are modelled on the bodies
  whose keys are among the five.
\<close>

definition body_fields :: "string list" where
  "body_fields = [''name'', ''description'', ''price'', ''category'', ''inStock'']"

definition only_body_fields :: "(string \<times> jsval) list \<Rightarrow> bool" where
  "only_body_fields b = list_all (\<lambda>kv. fst kv \<in> set body_fields) b"

definition create_product_protected :: handler where
  "create_product_protected req products =
     (if only_body_fields (body req)
      then (let newProduct =
                  \<lparr>pid = int (length products) + 1,
                   name = get_prop (body req) ''name'',
                   description = get_prop (body req) ''description'',
                   price = get_prop (body req) ''price'',
                   category = get_prop (body req) ''category'',
                   inStock = get_prop (body req) ''inStock''\<rparr>
            in (Respond 201 (product_json newProduct), products @ [newProduct]))
      else (Unmodelled, products))"

definition assigned :: "(string \<times> jsval) list \<Rightarrow> string \<Rightarrow> jsval \<Rightarrow> jsval" where
  "assigned b k old = (case map_of b k of None \<Rightarrow> old | Some v \<Rightarrow> v)"

definition object_assign :: "(string \<times> jsval) list \<Rightarrow> product \<Rightarrow> product" where
  "object_assign b product =
     product
       \<lparr>name := assigned b ''name'' (name product),
        description := assigned b ''description'' (description product),
        price := assigned b ''price'' (price product),
        category := assigned b ''category'' (category product),
        inStock := assigned b ''inStock'' (inStock product)\<rparr>"

definition update_product_protected :: handler where
  "update_product_protected req products =
     (case find (has_id (id_param req)) products of
        None \<Rightarrow> (Respond 404 (error_body ''Product not found''), products)
      | Some product \<Rightarrow>
          if only_body_fields (body req)
          then (Respond 200 (product_json (object_assign (body req) product)),
                update_found (has_id (id_param req)) (object_assign (body req)) products)
          else (Unmodelled, products))"

text \<open>DELETE /api/products/:id at line 261.\<close>

definition delete_product_protected :: handler where
  "delete_product_protected req products =
     (case findIndex (has_id (id_param req)) products of
        None \<Rightarrow> (Respond 404 (error_body ''Product not found''), products)
      | Some idx \<Rightarrow>
          (Respond 200
             (JObj [(''message'', JStr ''Product deleted''),
                    (''deleted'', JArr [product_json (products ! idx)])]),
           splice1 idx products))"

subsection \<open>Not found and the error translator (lines 272 to 286)\<close>

definition not_found :: handler where
  "not_found req products = (Fail (NotFoundError ''Route not found''), products)"

text \<open>\<open>err.statusCode || 500\<close>, \<open>err.name || 'Error'\<close> and
  \<open>err.message || 'Internal Server Error'\<close>.\<close>

definition status_of :: "js_error \<Rightarrow> nat" where
  "status_of err = (case statusCode err of None \<Rightarrow> 500 | Some c \<Rightarrow> if c = 0 then 500 else c)"

definition or_string :: "string \<Rightarrow> string \<Rightarrow> string" where
  "or_string s d = (if s = [] then d else s)"

definition error_translator :: "js_error \<Rightarrow> handler" where
  "error_translator err req products =
     (Respond (status_of err)
        (JObj [(''status'', JStr ''error''),
               (''errorType'', JStr (or_string (err_name err) ''Error'')),
               (''message'', JStr (or_string (err_message err) ''Internal Server Error''))]),
      products)"

subsection \<open>Express: layers, route matching and the walk over the stack\<close>

text \<open>
  A route pattern is a list of segments, each a literal or a named parameter; a parameter
  matches one non-empty segment and binds it in \<open>req.params\<close>.
\<close>

datatype seg = Lit string | Param string

fun match_path :: "seg list \<Rightarrow> string list \<Rightarrow> (string \<times> string) list option" where
  "match_path [] [] = Some []"
| "match_path (Lit l # ps) (x # xs) = (if l = x then match_path ps xs else None)"
| "match_path (Param n # ps) (x # xs) =
     (if x = [] then None else map_option ((#) (n, x)) (match_path ps xs))"
| "match_path ps xs = None"

text \<open>
  A layer is a middleware registered with \<open>app.use(f)\<close>, which every path matches, a
  route registered with \<open>app.get\<close>, \<open>app.post\<close>, \<open>app.put\<close> or \<open>app.delete\<close>, with its
  list of callbacks, or an error-handling middleware (a function of four arguments).
\<close>

datatype layer =
    Use handler
  | Route http_method "seg list" "handler list"
  | UseError "js_error \<Rightarrow> handler"

text \<open>The callbacks of one route run in order, each when its predecessor called
  \<open>next()\<close>.\<close>

fun run_chain :: "handler list \<Rightarrow> request \<Rightarrow> product list \<Rightarrow> outcome \<times> product list" where
  "run_chain [] req products = (Next, products)"
| "run_chain (h # hs) req products =
     (case h req products of (out, products') \<Rightarrow>
        (case out of Next \<Rightarrow> run_chain hs req products' | _ \<Rightarrow> (out, products')))"

definition matches :: "http_method \<Rightarrow> seg list \<Rightarrow> request \<Rightarrow> bool" where
  "matches m p req = (m = req_method req \<and> match_path p (path req) \<noteq> None)"

text \<open>
  One layer, in normal mode (\<open>None\<close>) or while an error is pending (\<open>Some e\<close>). A layer
  that does not apply passes the request on as it came: middleware and routes are
  skipped while an error is pending, error handlers are skipped otherwise.
\<close>

fun run_layer ::
  "layer \<Rightarrow> js_error option \<Rightarrow> request \<Rightarrow> product list \<Rightarrow> outcome \<times> product list" where
  "run_layer (Use h) None req products = h req products"
| "run_layer (Route m p hs) None req products =
     (if m = req_method req
      then (case match_path p (path req) of
              None \<Rightarrow> (Next, products)
            | Some bs \<Rightarrow> run_chain hs (req\<lparr>params := bs\<rparr>) products)
      else (Next, products))"
| "run_layer (UseError h) None req products = (Next, products)"
| "run_layer (UseError h) (Some e) req products = h e req products"
| "run_layer l (Some e) req products = (Fail e, products)"

text \<open>
  The walk: layers in registration order; \<open>next()\<close> goes on to the following layer,
  \<open>next(err)\<close> or a throw goes on with the error pending, anything else ends the walk.
  Past the last layer the request is left to Express's built-in final handler.
\<close>

fun dispatch ::
  "layer list \<Rightarrow> js_error option \<Rightarrow> request \<Rightarrow> product list \<Rightarrow> outcome \<times> product list" where
  "dispatch [] err req products =
     (case err of None \<Rightarrow> (Next, products) | Some e \<Rightarrow> (Fail e, products))"
| "dispatch (l # ls) err req products =
     (case run_layer l err req products of (out, products') \<Rightarrow>
        (case out of
           Next \<Rightarrow> dispatch ls None req products'
         | Fail e \<Rightarrow> dispatch ls (Some e) req products'
         | _ \<Rightarrow> (out, products')))"

subsection \<open>The application: every registration of the file, in order\<close>

definition products_path :: "seg list" where
  "products_path = [Lit ''api'', Lit ''products'']"

definition search_path :: "seg list" where
  "search_path = [Lit ''api'', Lit ''products'', Lit ''search'']"

definition stats_path :: "seg list" where
  "stats_path = [Lit ''api'', Lit ''products'', Lit ''stats'']"

definition id_path :: "seg list" where
  "id_path = [Lit ''api'', Lit ''products'', Param ''id'']"

definition app_stack :: "layer list" where
  "app_stack =
     [Use express_json,
      Use logger,
      Use express_json,
      Route GET products_path [asyncHandler list_products],
      Route GET search_path [asyncHandler search_products],
      Route GET id_path [get_product],
      Route POST products_path [create_product],
      Route PUT id_path [update_product],
      Route DELETE id_path [delete_product],
      Route GET stats_path [asyncHandler product_stats],
      Use authenticate,
      Route POST products_path [validateProduct, create_product_empty],
      Route GET products_path [list_products_public],
      Route GET id_path [get_product_public],
      Route POST products_path [authenticate, validateProduct, create_product_protected],
      Route PUT id_path [authenticate, validateProduct, update_product_protected],
      Route DELETE id_path [authenticate, delete_product_protected],
      Use not_found,
      UseError error_translator]"

definition app :: handler where
  "app req products = dispatch app_stack None req products"

subsection \<open>Vocabulary of the statements\<close>

text \<open>A failure that reaches the end of a route is answered by the error translator, the
  only error handler of the stack.\<close>

definition settle :: "request \<Rightarrow> outcome \<times> product list \<Rightarrow> outcome \<times> product list" where
  "settle req r =
     (case r of (out, products) \<Rightarrow>
        (case out of Fail e \<Rightarrow> error_translator e req products | _ \<Rightarrow> (out, products)))"

text \<open>A request with no query, no headers and an empty body.\<close>

definition request_of :: "http_method \<Rightarrow> string list \<Rightarrow> request" where
  "request_of m p =
     \<lparr>req_method = m, path = p, params = [], query = [], headers = [], body = []\<rparr>"

definition with_api_key :: "request \<Rightarrow> request" where
  "with_api_key req = req\<lparr>headers := [(''x-api-key'', ''12345'')]\<rparr>"

text \<open>The registrations that match a request, by their position in the stack.\<close>

fun route_matches :: "layer \<Rightarrow> request \<Rightarrow> bool" where
  "route_matches (Route m p hs) req = matches m p req"
| "route_matches l req = False"

definition registrations :: "request \<Rightarrow> nat list" where
  "registrations req =
     map fst (filter (\<lambda>il. route_matches (snd il) req) (enumerate 0 app_stack))"

text \<open>The reading of a path segment as "its decimal digit prefix", and the segments that
  \<open>parseInt\<close> reads as hexadecimal.\<close>

definition decimal_prefix :: "string \<Rightarrow> int option" where
  "decimal_prefix seg =
     (let ds = takeWhile (is_digit 10) seg
      in if ds = [] then None else Some (int (digits_value 10 ds)))"

definition hex_prefixed :: "string \<Rightarrow> bool" where
  "hex_prefixed seg = (prefix ''0x'' seg \<or> prefix ''0X'' seg)"

text \<open>
  The reading of a path segment as an id, in words: skip the leading white space; a
  leading \<open>-\<close> negates what follows and a leading \<open>+\<close> is dropped; after a
  \<open>0x\<close> or \<open>0X\<close> the value is that of the longest run of hexadecimal digits, and
  otherwise that of the longest run of decimal digits; there is no id when that run is
  empty.
\<close>

definition hex_digits_prefix :: "string \<Rightarrow> int option" where
  "hex_digits_prefix t =
     (let ds = takeWhile (is_digit 16) t
      in if ds = [] then None else Some (int (digits_value 16 ds)))"

definition unsigned_prefix :: "string \<Rightarrow> int option" where
  "unsigned_prefix t = (if hex_prefixed t then hex_digits_prefix (drop 2 t) else decimal_prefix t)"

definition signed_prefix :: "string \<Rightarrow> int option" where
  "signed_prefix t =
     (if prefix ''-'' t then map_option uminus (unsigned_prefix (drop 1 t))
      else if prefix ''+'' t then unsigned_prefix (drop 1 t)
      else unsigned_prefix t)"

definition segment_id :: "string \<Rightarrow> int option" where
  "segment_id seg = signed_prefix (dropWhile is_white seg)"

text \<open>A partial update in the words of the specification: a field that the body supplies
  with a value other than \<open>null\<close> takes that value, any other field keeps its old one.\<close>

definition supplied :: "(string \<times> jsval) list \<Rightarrow> string \<Rightarrow> jsval \<Rightarrow> jsval" where
  "supplied b k old =
     (case map_of b k of
        None \<Rightarrow> old
      | Some v \<Rightarrow> if v = JNull \<or> v = JUndefined then old else v)"

text \<open>A request with a given parsed query.\<close>

definition with_query :: "request \<Rightarrow> (string \<times> qval) list \<Rightarrow> request" where
  "with_query req q = req\<lparr>query := q\<rparr>"

text \<open>The words of the specification for the list and the search: the records of a
  category or with a keyword in their name, case-insensitively, and the elements of a
  list whose index lies in the half-open interval from \<open>a\<close> to \<open>b\<close>.\<close>

definition same_category :: "string \<Rightarrow> product \<Rightarrow> bool" where
  "same_category c p =
     (case category p of JStr t \<Rightarrow> toLowerCase t = toLowerCase c | _ \<Rightarrow> False)"

definition name_contains :: "string \<Rightarrow> product \<Rightarrow> bool" where
  "name_contains kw p =
     (case name p of JStr t \<Rightarrow> sublist (toLowerCase kw) (toLowerCase t) | _ \<Rightarrow> False)"

definition between :: "'a list \<Rightarrow> int \<Rightarrow> int \<Rightarrow> 'a list" where
  "between xs a b = map (nth xs) (filter (\<lambda>i. a \<le> int i \<and> int i < b) [0..<length xs])"

text \<open>A bound of a slice that, when negative, counts from the end of a list of length
  \<open>len\<close>.\<close>

definition from_end :: "int \<Rightarrow> int \<Rightarrow> int" where
  "from_end len i = (if i < 0 then len + i else i)"

text \<open>The stores the server can be in: the initial one, and the store any request leaves
  behind.\<close>

inductive reachable :: "product list \<Rightarrow> bool" where
  start: "reachable initial_products"
| request: "reachable s \<Longrightarrow> reachable (snd (app req s))"

text \<open>The ids of the array are strictly increasing.\<close>

definition ascending :: "product list \<Rightarrow> bool" where
  "ascending s = sorted_wrt (<) (map pid s)"

text \<open>Two registrations for the same method and path, and the positions in the stack
  of the registrations whose method and path were registered before.\<close>

fun same_route :: "layer \<Rightarrow> layer \<Rightarrow> bool" where
  "same_route (Route m p hs) (Route m' p' hs') = (m = m' \<and> p = p')"
| "same_route l l' = False"

definition later_duplicates :: "nat list" where
  "later_duplicates =
     filter (\<lambda>k. list_ex (\<lambda>i. same_route (app_stack ! i) (app_stack ! k)) [0..<k])
       [0..<length app_stack]"

section \<open>What each kind of request reaches\<close>

lemma request_of_fields [simp]:
  "req_method (request_of m p) = m" "path (request_of m p) = p"
  "params (request_of m p) = []" "query (request_of m p) = []"
  "headers (request_of m p) = []" "body (request_of m p) = []"
  by (simp_all add: request_of_def)

lemma with_api_key_fields [simp]:
  "req_method (with_api_key r) = req_method r" "path (with_api_key r) = path r"
  "params (with_api_key r) = params r" "query (with_api_key r) = query r"
  "headers (with_api_key r) = [(''x-api-key'', ''12345'')]" "body (with_api_key r) = body r"
  by (simp_all add: with_api_key_def)

lemmas path_defs = products_path_def search_path_def stats_path_def id_path_def

lemmas walk_defs = app_def app_stack_def path_defs settle_def express_json_def logger_def
  asyncHandler_def error_translator_def

lemma list_products_cases:
  "(\<exists>b. list_products r s = (Respond 200 b, s)) \<or> (\<exists>e. list_products r s = (Fail e, s))
   \<or> list_products r s = (Unmodelled, s)"
  by (simp add: list_products_def split: sum.splits js_integer.splits)

lemma search_products_cases:
  "(\<exists>b. search_products r s = (Respond 200 b, s)) \<or> (\<exists>e. search_products r s = (Fail e, s))"
  by (simp add: search_products_def split: sum.splits option.splits)

lemma get_product_cases: "\<exists>st b. get_product r s = (Respond st b, s)"
  by (simp add: get_product_def split: option.splits)

lemma create_product_cases: "\<exists>b s'. create_product r s = (Respond 201 b, s')"
  by (simp add: create_product_def Let_def)

lemma update_product_cases: "\<exists>st b s'. update_product r s = (Respond st b, s')"
  by (simp add: update_product_def split: option.splits)

lemma delete_product_cases: "\<exists>st b s'. delete_product r s = (Respond st b, s')"
  by (simp add: delete_product_def split: option.splits)

lemma app_list:
  assumes "req_method req = GET" "path req = [''api'', ''products'']"
  shows "app req s = settle req (list_products (req\<lparr>params := []\<rparr>) s)"
  using list_products_cases [of "req\<lparr>params := []\<rparr>" s] assms
  by (auto simp add: walk_defs)

lemma app_search:
  assumes "req_method req = GET" "path req = [''api'', ''products'', ''search'']"
  shows "app req s = settle req (search_products (req\<lparr>params := []\<rparr>) s)"
  using search_products_cases [of "req\<lparr>params := []\<rparr>" s] assms
  by (auto simp add: walk_defs)

lemma app_get:
  assumes "req_method req = GET" "path req = [''api'', ''products'', seg]"
    "seg \<noteq> []" "seg \<noteq> ''search''"
  shows "app req s = get_product (req\<lparr>params := [(''id'', seg)]\<rparr>) s"
  using get_product_cases [of "req\<lparr>params := [(''id'', seg)]\<rparr>" s] assms
  by (auto simp add: walk_defs)

lemma app_create:
  assumes "req_method req = POST" "path req = [''api'', ''products'']"
  shows "app req s = create_product (req\<lparr>params := []\<rparr>) s"
  using create_product_cases [of "req\<lparr>params := []\<rparr>" s] assms
  by (auto simp add: walk_defs)

lemma app_update:
  assumes "req_method req = PUT" "path req = [''api'', ''products'', seg]" "seg \<noteq> []"
  shows "app req s = update_product (req\<lparr>params := [(''id'', seg)]\<rparr>) s"
  using update_product_cases [of "req\<lparr>params := [(''id'', seg)]\<rparr>" s] assms
  by (auto simp add: walk_defs)

lemma app_delete:
  assumes "req_method req = DELETE" "path req = [''api'', ''products'', seg]" "seg \<noteq> []"
  shows "app req s = delete_product (req\<lparr>params := [(''id'', seg)]\<rparr>) s"
  using delete_product_cases [of "req\<lparr>params := [(''id'', seg)]\<rparr>" s] assms
  by (auto simp add: walk_defs)

lemma find_has_id_None: "find (has_id None) s = None"
  by (induction s) (simp_all add: has_id_def)

lemma parseInt_stats: "parseInt ''stats'' = None"
  by code_simp

subsection \<open>Requests that no registration matches\<close>

lemma run_layer_miss:
  "\<not> matches m p req \<Longrightarrow> run_layer (Route m p hs) None req s = (Next, s)"
  by (auto simp add: matches_def)

lemma registrations_Nil:
  assumes "registrations req = []"
  shows "\<not> matches GET products_path req" "\<not> matches GET search_path req"
    "\<not> matches GET id_path req" "\<not> matches POST products_path req"
    "\<not> matches PUT id_path req" "\<not> matches DELETE id_path req"
    "\<not> matches GET stats_path req"
  using assms by (simp_all add: registrations_def app_stack_def split: if_splits)

lemma app_unmatched:
  assumes "registrations req = []"
  shows "app req s =
    settle req (case authenticate req s of (Next, s') \<Rightarrow> not_found req s' | r \<Rightarrow> r)"
  using registrations_Nil [OF assms]
  by (simp add: app_def app_stack_def run_layer_miss express_json_def logger_def
      authenticate_def not_found_def settle_def error_translator_def
      del: run_layer.simps(2) split: option.splits)

subsection \<open>Every request is of one of seven kinds\<close>

lemma match_two: "match_path [Lit a, Lit b] xs \<noteq> None \<longleftrightarrow> xs = [a, b]"
  by (cases xs; cases "tl xs"; cases "tl (tl xs)") auto

lemma match_three: "match_path [Lit a, Lit b, Lit c] xs \<noteq> None \<longleftrightarrow> xs = [a, b, c]"
  by (cases xs; cases "tl xs"; cases "tl (tl xs)"; cases "tl (tl (tl xs))") auto

lemma match_param:
  "match_path [Lit a, Lit b, Param n] xs \<noteq> None \<longleftrightarrow> (\<exists>seg. seg \<noteq> [] \<and> xs = [a, b, seg])"
  by (cases xs; cases "tl xs"; cases "tl (tl xs)"; cases "tl (tl (tl xs))") auto

lemma request_cases [case_names list search get create update delete unmatched]:
  obtains
    "req_method req = GET" "path req = [''api'', ''products'']"
  | "req_method req = GET" "path req = [''api'', ''products'', ''search'']"
  | seg where "req_method req = GET" "path req = [''api'', ''products'', seg]"
      "seg \<noteq> []" "seg \<noteq> ''search''"
  | "req_method req = POST" "path req = [''api'', ''products'']"
  | seg where "req_method req = PUT" "path req = [''api'', ''products'', seg]" "seg \<noteq> []"
  | seg where "req_method req = DELETE" "path req = [''api'', ''products'', seg]" "seg \<noteq> []"
  | "registrations req = []"
proof (cases "registrations req = []")
  case True
  then show ?thesis using that by blast
next
  case False
  then consider "matches GET products_path req" | "matches GET search_path req"
    | "matches GET id_path req" | "matches POST products_path req"
    | "matches PUT id_path req" | "matches DELETE id_path req"
    | "matches GET stats_path req"
    by (auto simp add: registrations_def app_stack_def split: if_splits)
  then show ?thesis
  proof cases
    case 1
    then show ?thesis using that(1)
      by (simp add: matches_def products_path_def match_two del: not_None_eq)
  next
    case 2
    then show ?thesis using that(2)
      by (simp add: matches_def search_path_def match_three del: not_None_eq)
  next
    case 3
    then show ?thesis using that(2,3)
      by (cases "path req ! 2 = ''search''")
        (auto simp add: matches_def id_path_def match_param simp del: not_None_eq)
  next
    case 4
    then show ?thesis using that(4)
      by (simp add: matches_def products_path_def match_two del: not_None_eq)
  next
    case 5
    then show ?thesis using that(5)
      by (auto simp add: matches_def id_path_def match_param simp del: not_None_eq)
  next
    case 6
    then show ?thesis using that(6)
      by (auto simp add: matches_def id_path_def match_param simp del: not_None_eq)
  next
    case 7
    then show ?thesis using that(3)
      by (simp add: matches_def stats_path_def match_three del: not_None_eq)
  qed
qed


subsection \<open>Looking a record up by id\<close>

lemma has_id_iff: "has_id n p \<longleftrightarrow> Some (pid p) = n"
  by (auto simp add: has_id_def split: option.splits)

lemma find_has_id_absent:
  "(\<forall>p \<in> set s. Some (pid p) \<noteq> n) \<Longrightarrow> find (has_id n) s = None"
  by (induction s) (auto simp add: has_id_def split: option.splits)

lemma first_found:
  assumes "i < length s" "f (s ! i)" "\<forall>j<i. \<not> f (s ! j)"
  shows "find f s = Some (s ! i) \<and> update_found f g s = s[i := g (s ! i)]
     \<and> findIndex f s = Some i"
  using assms
proof (induction s arbitrary: i)
  case Nil
  then show ?case by simp
next
  case (Cons x xs)
  show ?case
  proof (cases i)
    case 0
    with Cons.prems show ?thesis by simp
  next
    case (Suc k)
    with Cons.prems have "\<not> f x" by auto
    moreover have "k < length xs" "f (xs ! k)" "\<forall>j<k. \<not> f (xs ! j)"
      using Cons.prems Suc by auto
    ultimately show ?thesis
      using Cons.IH [of k] Suc by simp
  qed
qed

lemma coalesce_supplied: "coalesce (get_prop b k) old = supplied b k old"
  by (cases "map_of b k"; cases "the (map_of b k)")
    (simp_all add: coalesce_def get_prop_def supplied_def)

lemma get_product_app:
  assumes "req_method req = GET" "path req = [''api'', ''products'', seg]"
    "seg \<noteq> []" "seg \<noteq> ''search''"
  shows "app req s =
     (case find (has_id (parseInt seg)) s of
        None \<Rightarrow> (Respond 404 (JObj [(''message'', JStr ''Product not found'')]), s)
      | Some p \<Rightarrow> (Respond 200 (product_json p), s))"
  by (simp add: app_get [OF assms] get_product_def id_param_def parseInt_opt_def message_body_def
      split: option.splits)

subsection \<open>parseInt on a segment that starts with a decimal digit\<close>

lemma digit_not_white: "is_digit 10 c \<Longrightarrow> \<not> is_white c"
  by (auto simp add: is_digit_def digit_of_def is_white_def Let_def split: if_splits)

lemma digit_not_sign: "is_digit 10 c \<Longrightarrow> c \<noteq> CHR ''-'' \<and> c \<noteq> CHR ''+''"
  by (auto simp add: is_digit_def digit_of_def Let_def split: if_splits)

lemma strip_prefix_decimal: "\<not> hex_prefixed seg \<Longrightarrow> strip_prefix seg = (10, seg)"
  by (cases seg rule: strip_prefix.cases) (auto simp add: hex_prefixed_def)

lemma parseInt_decimal:
  assumes "seg = c # cs" "is_digit 10 c" "\<not> hex_prefixed seg"
  shows "parseInt seg = decimal_prefix seg"
  using assms digit_not_white [of c] digit_not_sign [of c] strip_prefix_decimal [of seg]
  by (simp add: parseInt_def decimal_prefix_def)

subsection \<open>parseInt, in the words of the segment reading\<close>

lemma strip_prefix_hex:
  "strip_prefix t = (if hex_prefixed t then (16, drop 2 t) else (10, t))"
  by (cases t rule: strip_prefix.cases) (auto simp add: hex_prefixed_def)

lemma unsigned_prefix_eq:
  "(case strip_prefix t of (radix, s2) \<Rightarrow>
      let z = takeWhile (is_digit radix) s2
      in if z = [] then None else Some (sign * int (digits_value radix z)))
   = map_option (\<lambda>n. sign * n) (unsigned_prefix t)"
  by (simp add: strip_prefix_hex unsigned_prefix_def hex_digits_prefix_def decimal_prefix_def
      Let_def)

lemma map_option_sign:
  "map_option ((*) (1::int)) x = x" "map_option ((*) (- 1::int)) x = map_option uminus x"
  by (cases x; simp)+

lemma strip_sign_signed:
  "(case strip_sign t of (sign, s1) \<Rightarrow> map_option ((*) sign) (unsigned_prefix s1))
   = signed_prefix t"
  by (cases t) (auto simp add: signed_prefix_def map_option_sign unsigned_prefix_def
      hex_prefixed_def decimal_prefix_def)

lemma parseInt_segment_id: "parseInt seg = segment_id seg"
proof -
  have "parseInt seg =
      (case strip_sign (dropWhile is_white seg) of
         (sign, s1) \<Rightarrow> map_option ((*) sign) (unsigned_prefix s1))"
    unfolding parseInt_def by (simp add: unsigned_prefix_eq split: prod.splits)
  then show ?thesis
    by (simp only: strip_sign_signed segment_id_def)
qed

lemma lower_search: "toLowerCase ''search'' = ''search''"
  by code_simp

lemma has_id_fun: "has_id n = (\<lambda>p. Some (pid p) = n)"
  by (rule ext) (simp add: has_id_iff)

subsection \<open>Filtering and slicing\<close>

lemma with_query_fields [simp]:
  "req_method (with_query r q) = req_method r" "path (with_query r q) = path r"
  "params (with_query r q) = params r" "query (with_query r q) = q"
  "headers (with_query r q) = headers r" "body (with_query r q) = body r"
  by (simp_all add: with_query_def)

lemma filter_range: "filter (\<lambda>i. A \<le> i \<and> i < B) [0..<n] = [A..<min B n]"
proof (induction n)
  case 0
  then show ?case by simp
next
  case (Suc n)
  show ?case
  proof (cases "A \<le> n \<and> n < B")
    case True
    then have "min B (Suc n) = Suc n" "min B n = n" by auto
    with True Suc show ?thesis by simp
  next
    case False
    then have "[A..<min B (Suc n)] = [A..<min B n]"
      by (auto simp add: min_def)
    with False Suc show ?thesis by auto
  qed
qed

lemma take_drop_range: "map (nth xs) [A..<min B (length xs)] = take (B - A) (drop A xs)"
proof (rule nth_equalityI)
  show "length (map ((!) xs) [A..<min B (length xs)]) = length (take (B - A) (drop A xs))"
    by auto
next
  fix i assume "i < length (map ((!) xs) [A..<min B (length xs)])"
  then show "map ((!) xs) [A..<min B (length xs)] ! i = take (B - A) (drop A xs) ! i"
    by (auto simp add: min_def split: if_splits)
qed

lemma slice_between:
  assumes "0 \<le> a" "0 \<le> b"
  shows "slice xs a b = between xs a b"
proof -
  have "filter (\<lambda>i. a \<le> int i \<and> int i < b) [0..<length xs]
      = filter (\<lambda>i. nat a \<le> i \<and> i < nat b) [0..<length xs]"
    using assms by (intro filter_cong) auto
  then have "between xs a b = take (nat b - nat a) (drop (nat a) xs)"
    by (simp add: between_def filter_range take_drop_range)
  moreover have "slice xs a b = take (nat b - nat a) (drop (nat a) xs)"
  proof (cases "nat a \<le> length xs")
    case True
    then show ?thesis using assms
      by (auto simp add: slice_def clamp_index_def Let_def min_def nat_diff_distrib')
  next
    case False
    then show ?thesis using assms
      by (simp add: slice_def clamp_index_def Let_def min_def)
  qed
  ultimately show ?thesis by simp
qed

lemma between_max: "between xs a b = between xs (max a 0) (max b 0)"
proof -
  have "filter (\<lambda>i. a \<le> int i \<and> int i < b) [0..<length xs]
      = filter (\<lambda>i. max a 0 \<le> int i \<and> int i < max b 0) [0..<length xs]"
    by (intro filter_cong) auto
  then show ?thesis by (simp add: between_def)
qed

lemma slice_from_end:
  "slice xs a b = between xs (from_end (int (length xs)) a) (from_end (int (length xs)) b)"
proof -
  let ?len = "int (length xs)"
  let ?A = "max (from_end ?len a) 0" and ?B = "max (from_end ?len b) 0"
  have "clamp_index ?len a = clamp_index ?len ?A" "clamp_index ?len b = clamp_index ?len ?B"
    by (auto simp add: clamp_index_def from_end_def)
  then have "slice xs a b = slice xs ?A ?B"
    by (simp add: slice_def)
  also have "\<dots> = between xs ?A ?B"
    by (rule slice_between) simp_all
  also have "\<dots> = between xs (from_end ?len a) (from_end ?len b)"
    by (rule between_max [symmetric])
  finally show ?thesis .
qed

lemma filter_throw_category:
  "\<forall>p \<in> set s. \<exists>t. category p = JStr t \<Longrightarrow>
   filter_throw (category_equals (QStr c)) s = Inr (filter (same_category c) s)"
  by (induction s) (auto simp add: category_equals_def same_category_def)

lemma filter_throw_name:
  "\<forall>p \<in> set s. \<exists>t. name p = JStr t \<Longrightarrow>
   filter_throw (name_includes (QStr kw)) s = Inr (filter (name_contains kw) s)"
  by (induction s) (auto simp add: name_includes_def name_contains_def str_includes_def)

subsection \<open>The ids of the store are strictly increasing\<close>

lemma ascending_last: "ascending s \<Longrightarrow> q \<in> set s \<Longrightarrow> pid q \<le> pid (last s)"
proof (induction s)
  case Nil
  then show ?case by simp
next
  case (Cons x xs)
  show ?case
  proof (cases "xs = []")
    case True
    with Cons.prems show ?thesis by simp
  next
    case False
    then have "last xs \<in> set xs" by simp
    with Cons False show ?thesis
      by (auto simp add: ascending_def less_imp_le)
  qed
qed

lemma next_id_above: "ascending s \<Longrightarrow> q \<in> set s \<Longrightarrow> pid q < next_id s"
  using ascending_last [of s q] by (auto simp add: next_id_def)

lemma ascending_create:
  assumes "ascending s"
  shows "ascending (snd (create_product r s))"
  using assms next_id_above [OF assms]
  by (auto simp add: create_product_def Let_def ascending_def sorted_wrt_append)

lemma map_pid_update_found: "map pid (update_found f (overlay b) s) = map pid s"
  by (induction s) (simp_all add: overlay_def)

lemma ascending_update: "ascending s \<Longrightarrow> ascending (snd (update_product r s))"
  by (simp add: update_product_def ascending_def map_pid_update_found split: option.splits)

lemma splice1_simps:
  "splice1 0 (x # xs) = xs" "splice1 (Suc i) (x # xs) = x # splice1 i xs" "splice1 i [] = []"
  by (simp_all add: splice1_def)

lemma set_splice1: "set (splice1 i xs) \<subseteq> set xs"
  unfolding splice1_def using set_take_subset [of i xs] set_drop_subset [of "Suc i" xs] by auto

lemma ascending_splice1: "ascending s \<Longrightarrow> ascending (splice1 i s)"
proof (induction s arbitrary: i)
  case Nil
  then show ?case by (simp add: splice1_simps)
next
  case (Cons x xs)
  show ?case
  proof (cases i)
    case 0
    with Cons.prems show ?thesis by (simp add: splice1_simps ascending_def)
  next
    case (Suc k)
    with Cons set_splice1 [of k xs] show ?thesis
      by (auto simp add: splice1_simps ascending_def)
  qed
qed

lemma ascending_delete: "ascending s \<Longrightarrow> ascending (snd (delete_product r s))"
  by (simp add: delete_product_def ascending_splice1 split: option.splits)

lemma snd_settle: "snd (settle req r) = snd r"
  by (cases r; cases "fst r") (simp_all add: settle_def error_translator_def)

lemma ascending_app:
  assumes "ascending s"
  shows "ascending (snd (app req s))"
proof (cases req rule: request_cases)
  case list
  then show ?thesis
    using assms list_products_cases [of "req\<lparr>params := []\<rparr>" s]
    by (auto simp add: app_list snd_settle)
next
  case search
  then show ?thesis
    using assms search_products_cases [of "req\<lparr>params := []\<rparr>" s]
    by (auto simp add: app_search snd_settle)
next
  case (get seg)
  then show ?thesis
    using assms get_product_cases [of "req\<lparr>params := [(''id'', seg)]\<rparr>" s]
    by (auto simp add: app_get)
next
  case create
  then show ?thesis using assms by (simp add: app_create ascending_create)
next
  case (update seg)
  then show ?thesis using assms by (simp add: app_update ascending_update)
next
  case (delete seg)
  then show ?thesis using assms by (simp add: app_delete ascending_delete)
next
  case unmatched
  then show ?thesis
    using assms
    by (simp add: app_unmatched snd_settle authenticate_def not_found_def split: option.splits)
qed

lemma ascending_initial: "ascending initial_products"
  by (simp add: ascending_def initial_products_def mk_product_def)

lemma reachable_ascending: "reachable s \<Longrightarrow> ascending s"
  by (induction rule: reachable.induct) (simp_all add: ascending_initial ascending_app)

subsection \<open>The registrations that match, and the ones that never run\<close>

lemma later_duplicates_eq: "later_duplicates = [11, 12, 13, 14, 15, 16]"
  by (simp add: later_duplicates_def app_stack_def path_defs upt_rec)

lemma run_chain_single: "run_chain [h] r s = h r s"
  by (cases "h r s"; cases "fst (h r s)") auto

lemma settle_Respond: "settle req (Respond st b, s) = (Respond st b, s)"
  by (simp add: settle_def)

lemma registrations_list:
  "req_method req = GET \<Longrightarrow> path req = [''api'', ''products''] \<Longrightarrow> registrations req = [3, 12]"
  by (simp add: registrations_def app_stack_def matches_def path_defs)

lemma registrations_search:
  "req_method req = GET \<Longrightarrow> path req = [''api'', ''products'', ''search''] \<Longrightarrow>
   registrations req = [4, 5, 13]"
  by (simp add: registrations_def app_stack_def matches_def path_defs)

lemma registrations_get:
  "req_method req = GET \<Longrightarrow> path req = [''api'', ''products'', seg] \<Longrightarrow> seg \<noteq> [] \<Longrightarrow>
   seg \<noteq> ''search'' \<Longrightarrow>
   registrations req = (if seg = ''stats'' then [5, 9, 13] else [5, 13])"
  by (auto simp add: registrations_def app_stack_def matches_def path_defs)

lemma registrations_create:
  "req_method req = POST \<Longrightarrow> path req = [''api'', ''products''] \<Longrightarrow>
   registrations req = [6, 11, 14]"
  by (simp add: registrations_def app_stack_def matches_def path_defs)

lemma registrations_update:
  "req_method req = PUT \<Longrightarrow> path req = [''api'', ''products'', seg] \<Longrightarrow> seg \<noteq> [] \<Longrightarrow>
   registrations req = [7, 15]"
  by (simp add: registrations_def app_stack_def matches_def path_defs)

lemma registrations_delete:
  "req_method req = DELETE \<Longrightarrow> path req = [''api'', ''products'', seg] \<Longrightarrow> seg \<noteq> [] \<Longrightarrow>
   registrations req = [8, 16]"
  by (simp add: registrations_def app_stack_def matches_def path_defs)

lemma first_registration:
  assumes "registrations req = i # j # rest"
  shows "\<exists>m p hs bs. app_stack ! i = Route m p hs \<and> match_path p (path req) = Some bs
           \<and> app req s = settle req (run_chain hs (req\<lparr>params := bs\<rparr>) s)"
proof (cases req rule: request_cases)
  case list
  with assms have "i = 3" by (simp add: registrations_list)
  then show ?thesis using list
    by (simp add: app_stack_def products_path_def app_list run_chain_single asyncHandler_def
        del: run_chain.simps)
next
  case search
  with assms have "i = 4" by (simp add: registrations_search)
  then show ?thesis using search
    by (simp add: app_stack_def search_path_def app_search run_chain_single asyncHandler_def
        del: run_chain.simps)
next
  case (get seg)
  with assms have "i = 5" by (simp add: registrations_get split: if_splits)
  then show ?thesis using get get_product_cases [of "req\<lparr>params := [(''id'', seg)]\<rparr>" s]
    by (auto simp add: app_stack_def id_path_def app_get run_chain_single settle_Respond
        simp del: run_chain.simps)
next
  case create
  with assms have "i = 6" by (simp add: registrations_create)
  then show ?thesis using create create_product_cases [of "req\<lparr>params := []\<rparr>" s]
    by (auto simp add: app_stack_def products_path_def app_create run_chain_single settle_Respond
        simp del: run_chain.simps)
next
  case (update seg)
  with assms have "i = 7" by (simp add: registrations_update)
  then show ?thesis using update update_product_cases [of "req\<lparr>params := [(''id'', seg)]\<rparr>" s]
    by (auto simp add: app_stack_def id_path_def app_update run_chain_single settle_Respond
        simp del: run_chain.simps)
next
  case (delete seg)
  with assms have "i = 8" by (simp add: registrations_delete)
  then show ?thesis using delete delete_product_cases [of "req\<lparr>params := [(''id'', seg)]\<rparr>" s]
    by (auto simp add: app_stack_def id_path_def app_delete run_chain_single settle_Respond
        simp del: run_chain.simps)
next
  case unmatched
  with assms show ?thesis by simp
qed

lemma dead_registration:
  assumes "k \<in> {11, 12, 13, 14, 15, 16}"
  shows "dispatch (splice1 k app_stack) None req s = app req s"
proof (cases req rule: request_cases)
  case list
  then show ?thesis
    using assms list_products_cases [of "req\<lparr>params := []\<rparr>" s]
    by (auto simp add: walk_defs splice1_def)
next
  case search
  then show ?thesis
    using assms search_products_cases [of "req\<lparr>params := []\<rparr>" s]
    by (auto simp add: walk_defs splice1_def)
next
  case (get seg)
  then show ?thesis
    using assms get_product_cases [of "req\<lparr>params := [(''id'', seg)]\<rparr>" s]
    by (auto simp add: walk_defs splice1_def)
next
  case create
  then show ?thesis
    using assms create_product_cases [of "req\<lparr>params := []\<rparr>" s]
    by (auto simp add: walk_defs splice1_def)
next
  case (update seg)
  then show ?thesis
    using assms update_product_cases [of "req\<lparr>params := [(''id'', seg)]\<rparr>" s]
    by (auto simp add: walk_defs splice1_def)
next
  case (delete seg)
  then show ?thesis
    using assms delete_product_cases [of "req\<lparr>params := [(''id'', seg)]\<rparr>" s]
    by (auto simp add: walk_defs splice1_def)
next
  case unmatched
  show ?thesis
    using assms registrations_Nil [OF unmatched]
    by (auto simp add: walk_defs splice1_def run_layer_miss authenticate_def not_found_def
        simp del: run_layer.simps(2) split: option.splits)
qed

subsection \<open>The stats handler, called by itself\<close>

lemma product_stats_initial:
  "product_stats req initial_products =
     (Respond 200
        (JObj [(''totalProducts'', JNum 5),
               (''countByCategory'',
                JObj [(''Electronics'', JNum 3), (''Accessories'', JNum 2)])]),
      initial_products)"
  by (simp add: product_stats_def count_by_category_def initial_products_def mk_product_def
      inherited_names_def is_digit_def digit_of_def)

section \<open>The claims\<close>

text \<open>
  C1. The claim: a request without the right \<open>x-api-key\<close> never changes the store and is
  answered 401. On the code \<open>app.use(authenticate)\<close> comes at line 224, after the routes
  of lines 84 to 190, so it never runs for them: a POST to /api/products that carries no
  key at all is answered 201 and appends a record.
\<close>

theorem create_without_api_key:
  "app (request_of POST [''api'', ''products'']) initial_products =
     (Respond 201
        (JObj [(''id'', JNum 6), (''name'', JUndefined), (''description'', JUndefined),
               (''price'', JUndefined), (''category'', JUndefined), (''inStock'', JUndefined)]),
      initial_products @
        [\<lparr>pid = 6, name = JUndefined, description = JUndefined, price = JUndefined,
          category = JUndefined, inStock = JUndefined\<rparr>])"
  by (simp add: app_create request_of_def create_product_def next_id_def initial_products_def
      mk_product_def product_json_def get_prop_def)

text \<open>
  C2. Route resolution is first-registered-wins. For every request that two or more
  registrations match, the earliest of them (position \<open>i\<close> of the stack) is a route
  whose pattern matches the path, and the answer and the store that the application
  produces are those of the chain of callbacks of that registration, a failure it raises
  being answered by the error translator. The registrations whose method and path were
  registered before are those at positions 11 to 16 (lines 227 to 266), and each of them
  is dead code: the application without it treats every request, on every store, as the
  application does.
\<close>

theorem first_registered_wins:
  "(\<forall>i j rest. registrations req = i # j # rest \<longrightarrow>
      (\<exists>m p hs bs. app_stack ! i = Route m p hs \<and> match_path p (path req) = Some bs
         \<and> app req s = settle req (run_chain hs (req\<lparr>params := bs\<rparr>) s)))
   \<and> later_duplicates = [11, 12, 13, 14, 15, 16]
   \<and> (\<forall>k \<in> set later_duplicates. dispatch (splice1 k app_stack) None req s = app req s)"
  using first_registration [of req _ _ _ s] dead_registration [of _ req s]
  by (simp add: later_duplicates_eq)

theorem first_registered_wins_witness:
  "registrations (request_of GET [''api'', ''products'']) = [3, 12]
   \<and> app_stack ! 3 = Route GET products_path [asyncHandler list_products]
   \<and> app_stack ! 12 = Route GET products_path [list_products_public]
   \<and> app (request_of GET [''api'', ''products'']) initial_products =
       (Respond 200 (page_body 1 2 initial_products), initial_products)
   \<and> dispatch (splice1 12 app_stack) None (request_of GET [''api'', ''products''])
         initial_products =
       (Respond 200 (page_body 1 2 initial_products), initial_products)"
proof -
  let ?r = "request_of GET [''api'', ''products'']"
  have regs: "registrations ?r = [3, 12]"
    by (simp add: registrations_list)
  have l3: "app_stack ! 3 = Route GET products_path [asyncHandler list_products]"
    and l12: "app_stack ! 12 = Route GET products_path [list_products_public]"
    by (simp_all add: app_stack_def)
  have m: "match_path products_path (path ?r) = Some []"
    by (simp add: products_path_def)
  have h: "list_products (?r\<lparr>params := []\<rparr>) initial_products =
      (Respond 200 (page_body 1 2 initial_products), initial_products)"
    by (simp add: list_products_def filter_category_def q_param_def q_int_def parseInt_opt_def
        to_number_def or_default_def)
  note w = first_registered_wins [of ?r initial_products]
  from w regs have "\<exists>m p hs bs. app_stack ! 3 = Route m p hs \<and> match_path p (path ?r) = Some bs
         \<and> app ?r initial_products = settle ?r (run_chain hs (?r\<lparr>params := bs\<rparr>) initial_products)"
    by blast
  then have a: "app ?r initial_products =
       (Respond 200 (page_body 1 2 initial_products), initial_products)"
    using m h by (auto simp add: l3 run_chain_single asyncHandler_def settle_Respond
        simp del: run_chain.simps)
  from w have dups: "later_duplicates = [11, 12, 13, 14, 15, 16]" by blast
  have "(12::nat) \<in> set later_duplicates" by (simp add: dups)
  with w have d: "dispatch (splice1 12 app_stack) None ?r initial_products
      = app ?r initial_products"
    by blast
  show ?thesis using regs l3 l12 a d by simp
qed

text \<open>
  C3. The claim: GET /products/stats answers with \<open>{totalProducts, countByCategory}\<close>.
  On the code the request never reaches the stats handler of line 178: the route
  \<open>/api/products/:id\<close> of line 126 is registered earlier and matches the segment
  \<open>stats\<close>, \<open>parseInt('stats')\<close> is \<open>NaN\<close>, and the answer is 404 with the message
  "Product not found", whatever the store, the headers and the query are.
\<close>

theorem stats_request_answered_by_id_route:
  "app \<lparr>req_method = GET, path = [''api'', ''products'', ''stats''], params = ps, query = q,
        headers = h, body = b\<rparr> s
   = (Respond 404 (JObj [(''message'', JStr ''Product not found'')]), s)"
  by (simp add: app_get get_product_def id_param_def parseInt_opt_def parseInt_stats
      find_has_id_None message_body_def)

text \<open>
  C4. The claim: a create request is validated before the store is touched, and a payload
  that breaks a rule is answered 400 with the store unchanged. On the code
  \<open>validateProduct\<close> is attached to the registrations of lines 227, 246 and 253 only,
  which the registrations of lines 135 and 150 shadow. A POST with the valid key whose
  body has a string for \<open>price\<close> and nothing else is rejected by \<open>validateProduct\<close>
  itself, yet the application answers 201 and stores the record.
\<close>

theorem create_is_not_validated:
  "validateProduct
     ((with_api_key (request_of POST [''api'', ''products'']))\<lparr>body := [(''price'', JStr ''free'')]\<rparr>)
     initial_products
   = (Respond 400 (JObj [(''error'', JStr ''All product fields are required'')]),
      initial_products)
   \<and> app
     ((with_api_key (request_of POST [''api'', ''products'']))\<lparr>body := [(''price'', JStr ''free'')]\<rparr>)
     initial_products
   = (Respond 201
        (JObj [(''id'', JNum 6), (''name'', JUndefined), (''description'', JUndefined),
               (''price'', JStr ''free''), (''category'', JUndefined),
               (''inStock'', JUndefined)]),
      initial_products @
        [\<lparr>pid = 6, name = JUndefined, description = JUndefined, price = JStr ''free'',
          category = JUndefined, inStock = JUndefined\<rparr>])"
  by (simp add: app_create request_of_def with_api_key_def create_product_def next_id_def
      initial_products_def mk_product_def product_json_def get_prop_def validateProduct_def
      error_body_def falsy_def)

text \<open>
  C5. The claim: the id a create assigns is greater than the maximum id in the store and
  than every id assigned before, so that ids are never reused after a deletion. The
  claim as stated fails: a create on the initial store assigns 6; once record 6 is
  deleted the store is the initial one again, and the next create assigns 6 once more,
  because the id is the id of the last record of the array plus one.
\<close>

theorem id_reused_after_delete:
  "fst (app (request_of POST [''api'', ''products'']) initial_products) =
     Respond 201
       (JObj [(''id'', JNum 6), (''name'', JUndefined), (''description'', JUndefined),
              (''price'', JUndefined), (''category'', JUndefined), (''inStock'', JUndefined)])
   \<and> snd (app (request_of DELETE [''api'', ''products'', ''6''])
            (snd (app (request_of POST [''api'', ''products'']) initial_products)))
       = initial_products
   \<and> fst (app (request_of POST [''api'', ''products''])
       (snd (app (request_of DELETE [''api'', ''products'', ''6''])
            (snd (app (request_of POST [''api'', ''products'']) initial_products))))) =
     Respond 201
       (JObj [(''id'', JNum 6), (''name'', JUndefined), (''description'', JUndefined),
              (''price'', JUndefined), (''category'', JUndefined), (''inStock'', JUndefined)])"
proof -
  have p: "parseInt ''6'' = Some 6" by code_simp
  have c: "app (request_of POST [''api'', ''products'']) initial_products =
     (Respond 201
       (JObj [(''id'', JNum 6), (''name'', JUndefined), (''description'', JUndefined),
              (''price'', JUndefined), (''category'', JUndefined), (''inStock'', JUndefined)]),
      initial_products @
        [\<lparr>pid = 6, name = JUndefined, description = JUndefined, price = JUndefined,
          category = JUndefined, inStock = JUndefined\<rparr>])"
    by (simp add: app_create create_product_def next_id_def initial_products_def
        mk_product_def product_json_def get_prop_def)
  have d: "snd (app (request_of DELETE [''api'', ''products'', ''6''])
        (initial_products @
        [\<lparr>pid = 6, name = JUndefined, description = JUndefined, price = JUndefined,
          category = JUndefined, inStock = JUndefined\<rparr>])) = initial_products"
    by (simp add: app_delete delete_product_def id_param_def parseInt_opt_def p has_id_def
        initial_products_def mk_product_def splice1_def)
  show ?thesis by (simp add: c d)
qed

text \<open>
  C5, amended. In every store the server can reach from the initial catalogue, by
  requests of any kind, a create appends one record whose id is strictly greater than
  the id of every record in the store at that time: it is the id of the last record plus
  one, and 1 when the store is empty. (Nothing is promised about ids of records deleted
  earlier.)
\<close>

theorem created_id_above_existing:
  assumes "reachable s" "req_method req = POST" "path req = [''api'', ''products'']"
  shows "\<exists>p. app req s = (Respond 201 (product_json p), s @ [p])
           \<and> (\<forall>q \<in> set s. pid q < pid p)
           \<and> pid p = (if s = [] then 1 else pid (last s) + 1)"
  using next_id_above [OF reachable_ascending [OF assms(1)]]
  by (auto simp add: app_create [OF assms(2,3)] create_product_def Let_def next_id_def)

theorem created_id_above_existing_witness:
  "reachable (snd (app (request_of DELETE [''api'', ''products'', ''5'']) initial_products))
   \<and> snd (app (request_of DELETE [''api'', ''products'', ''5'']) initial_products)
       = take 4 initial_products
   \<and> (\<exists>p. app (request_of POST [''api'', ''products'']) (take 4 initial_products)
            = (Respond 201 (product_json p), take 4 initial_products @ [p])
          \<and> pid p = 5)"
proof -
  have p: "parseInt ''5'' = Some 5" by code_simp
  have d: "snd (app (request_of DELETE [''api'', ''products'', ''5'']) initial_products)
       = take 4 initial_products"
    by (simp add: app_delete delete_product_def id_param_def parseInt_opt_def p has_id_def
        initial_products_def mk_product_def splice1_def)
  have r: "reachable (snd (app (request_of DELETE [''api'', ''products'', ''5'']) initial_products))"
    by (intro reachable.intros)
  then have r4: "reachable (take 4 initial_products)" by (simp add: d)
  have "\<exists>p. app (request_of POST [''api'', ''products'']) (take 4 initial_products)
            = (Respond 201 (product_json p), take 4 initial_products @ [p])
          \<and> (\<forall>q \<in> set (take 4 initial_products). pid q < pid p)
          \<and> pid p = (if take 4 initial_products = [] then 1
                      else pid (last (take 4 initial_products)) + 1)"
    using created_id_above_existing [OF r4, of "request_of POST [''api'', ''products'']"] by simp
  then obtain p where
    a: "app (request_of POST [''api'', ''products'']) (take 4 initial_products)
            = (Respond 201 (product_json p), take 4 initial_products @ [p])"
    and i: "pid p = (if take 4 initial_products = [] then 1
                      else pid (last (take 4 initial_products)) + 1)"
    by blast
  have "(if take 4 initial_products = [] then 1
         else pid (last (take 4 initial_products)) + 1) = 5"
    by (simp add: initial_products_def mk_product_def)
  with i have "pid p = 5" by simp
  with a r d show ?thesis by blast
qed

text \<open>
  C6. The claim: a request that no registered route matches is answered 404 with
  \<open>{status: "error", errorType: "NotFoundError", message: "Route not found"}\<close>, and an
  untyped failure is translated to status 500. The claim as stated fails for a request
  without the API key: \<open>app.use(authenticate)\<close> (line 224) stands before the not-found
  handler (line 272) and answers 401 first.
\<close>

theorem unmatched_without_key_is_401:
  "registrations (request_of GET [''api'', ''orders'']) = []
   \<and> app (request_of GET [''api'', ''orders'']) initial_products =
       (Respond 401 (JObj [(''error'', JStr ''Unauthorized: invalid or missing API key'')]),
        initial_products)"
proof -
  have none: "registrations (request_of GET [''api'', ''orders'']) = []"
    by (simp add: registrations_def app_stack_def matches_def path_defs)
  show ?thesis
    by (simp add: none app_unmatched [OF none] authenticate_def settle_def error_body_def)
qed

text \<open>
  C6, amended. A request that no registration matches reaches \<open>authenticate\<close>: without
  the valid \<open>x-api-key\<close> it is answered 401 with the body
  \<open>{error: "Unauthorized: invalid or missing API key"}\<close>; with it, the not-found handler
  raises \<open>NotFoundError("Route not found")\<close> and the error translator answers 404 with
  \<open>{status: "error", errorType: "NotFoundError", message: "Route not found"}\<close>. In both
  cases the store is unchanged. An error without a \<open>statusCode\<close> is translated to
  status 500.
\<close>

theorem unmatched_route_answer:
  assumes "registrations req = []"
  shows "app req s =
      (if map_of (headers req) ''x-api-key'' = Some ''12345''
       then (Respond 404
               (JObj [(''status'', JStr ''error''), (''errorType'', JStr ''NotFoundError''),
                      (''message'', JStr ''Route not found'')]), s)
       else (Respond 401
               (JObj [(''error'', JStr ''Unauthorized: invalid or missing API key'')]), s))
    \<and> (\<forall>e. statusCode e = None \<longrightarrow>
          (\<exists>b. error_translator e req s = (Respond 500 b, s)))"
proof
  show "app req s =
      (if map_of (headers req) ''x-api-key'' = Some ''12345''
       then (Respond 404
               (JObj [(''status'', JStr ''error''), (''errorType'', JStr ''NotFoundError''),
                      (''message'', JStr ''Route not found'')]), s)
       else (Respond 401
               (JObj [(''error'', JStr ''Unauthorized: invalid or missing API key'')]), s))"
    by (auto simp add: app_unmatched [OF assms] authenticate_def VALID_API_KEY_def not_found_def
        settle_def error_translator_def NotFoundError_def status_of_def or_string_def
        error_body_def split: option.splits)
  show "\<forall>e. statusCode e = None \<longrightarrow> (\<exists>b. error_translator e req s = (Respond 500 b, s))"
    by (simp add: error_translator_def status_of_def)
qed

theorem unmatched_route_answer_witness:
  "registrations (with_api_key (request_of OTHER [''api'', ''products''])) = []
   \<and> app (with_api_key (request_of OTHER [''api'', ''products''])) initial_products =
       (Respond 404
          (JObj [(''status'', JStr ''error''), (''errorType'', JStr ''NotFoundError''),
                 (''message'', JStr ''Route not found'')]), initial_products)
   \<and> statusCode (TypeError ''toLowerCase is not a function'') = None
   \<and> fst (error_translator (TypeError ''toLowerCase is not a function'')
            (request_of GET [''api'', ''products'']) initial_products) = Respond 500
          (JObj [(''status'', JStr ''error''), (''errorType'', JStr ''TypeError''),
                 (''message'', JStr ''toLowerCase is not a function'')])"
proof -
  have none: "registrations (with_api_key (request_of OTHER [''api'', ''products''])) = []"
    by (simp add: registrations_def app_stack_def matches_def)
  show ?thesis
    using unmatched_route_answer [OF none, of initial_products] none
    by (simp add: TypeError_def error_translator_def status_of_def or_string_def)
qed

text \<open>
  C7. The claim: for every GET /products request a supplied category filters the records
  and \<open>products\<close> is the slice from \<open>(page-1)*limit\<close> to \<open>page*limit\<close> of the filtered
  set. The claim as stated fails in two places. With \<open>limit=-2\<close> the interval from
  \<open>0\<close> to \<open>-2\<close> is empty, yet the answer carries the first three records, because
  \<open>Array.prototype.slice\<close> counts a negative bound from the end. With \<open>category=\<close>
  (supplied and empty) no record has that category, yet nothing is filtered, because the
  empty string is falsy.
\<close>

theorem negative_limit_and_empty_category:
  "between initial_products ((1 - 1) * (- 2)) (1 * (- 2)) = []
   \<and> app (with_query (request_of GET [''api'', ''products'']) [(''limit'', QStr ''-2'')])
        initial_products =
       (Respond 200
          (JObj [(''page'', JNum 1), (''limit'', JNum (- 2)), (''totalPages'', JNum (- 2)),
                 (''totalItems'', JNum 5),
                 (''products'', JArr (map product_json (take 3 initial_products)))]),
        initial_products)
   \<and> filter (same_category []) initial_products = []
   \<and> app (with_query (request_of GET [''api'', ''products'']) [(''category'', QStr [])])
        initial_products =
       (Respond 200
          (JObj [(''page'', JNum 1), (''limit'', JNum 2), (''totalPages'', JNum 3),
                 (''totalItems'', JNum 5),
                 (''products'', JArr (map product_json (take 2 initial_products)))]),
        initial_products)"
proof -
  have b: "between initial_products ((1 - 1) * (- 2)) (1 * (- 2)) = []"
    by (simp add: between_def)
  have p: "parseInt ''-2'' = Some (- 2)" by code_simp
  have len: "length initial_products = 5" by (simp add: initial_products_def)
  have c1: "\<lceil>rat_of_int 5 / rat_of_int (- 2)\<rceil> = - 2" by code_simp
  have c2: "\<lceil>rat_of_int 5 / rat_of_int 2\<rceil> = 3" by code_simp
  have a1: "app (with_query (request_of GET [''api'', ''products'']) [(''limit'', QStr ''-2'')])
        initial_products =
       (Respond 200
          (JObj [(''page'', JNum 1), (''limit'', JNum (- 2)), (''totalPages'', JNum (- 2)),
                 (''totalItems'', JNum 5),
                 (''products'', JArr (map product_json (take 3 initial_products)))]),
        initial_products)"
    using c1
    by (simp add: app_list list_products_def filter_category_def q_param_def q_int_def
        parseInt_opt_def p to_number_def or_default_def page_body_def settle_def slice_def
        clamp_index_def len)
  have f: "filter (same_category []) initial_products = []"
    by (simp add: initial_products_def mk_product_def same_category_def toLowerCase_def)
  have a2: "app (with_query (request_of GET [''api'', ''products'']) [(''category'', QStr [])])
        initial_products =
       (Respond 200
          (JObj [(''page'', JNum 1), (''limit'', JNum 2), (''totalPages'', JNum 3),
                 (''totalItems'', JNum 5),
                 (''products'', JArr (map product_json (take 2 initial_products)))]),
        initial_products)"
    using c2
    by (simp add: app_list list_products_def filter_category_def q_param_def q_int_def
        parseInt_opt_def to_number_def or_default_def page_body_def settle_def slice_def
        clamp_index_def len)
  show ?thesis using b a1 f a2 by simp
qed

text \<open>
  C7, amended. For a GET /products request whose \<open>category\<close> parameter is absent, empty,
  or a non-empty string while every stored category is a string: the result set is the
  whole store when the parameter is absent or empty, and otherwise the records whose
  category equals it case-insensitively; \<open>page\<close> and \<open>limit\<close> are \<open>parseInt\<close> of their
  parameters (values below \<open>2^53\<close> in magnitude), with 1 and 2 when the parameter is
  missing, does not parse, or parses to \<open>0\<close>; the answer is 200 with \<open>page\<close>,
  \<open>limit\<close>, \<open>totalPages = ceil(totalItems / limit)\<close>, \<open>totalItems\<close> the size of the
  result set, and \<open>products\<close> the records of the result set at the positions from
  \<open>(page-1)*limit\<close> up to, but not including, \<open>page*limit\<close>, where a negative bound
  counts from the end of the result set. When page and limit are both positive (or both
  negative) no bound is negative and \<open>products\<close> is the slice from \<open>(page-1)*limit\<close>
  to \<open>page*limit\<close> itself. The store is unchanged.
\<close>

theorem list_products_page:
  assumes "req_method req = GET" "path req = [''api'', ''products'']"
    and "q_param req ''category'' = None \<and> results = s
       \<or> q_param req ''category'' = Some (QStr []) \<and> results = s
       \<or> (\<exists>c. q_param req ''category'' = Some (QStr c) \<and> c \<noteq> []
              \<and> (\<forall>p \<in> set s. \<exists>t. category p = JStr t)
              \<and> results = filter (same_category c) s)"
    and "case q_int req ''page'' of
           NaN \<Rightarrow> page = 1 | Exact n \<Rightarrow> page = (if n = 0 then 1 else n) | Rounded \<Rightarrow> False"
    and "case q_int req ''limit'' of
           NaN \<Rightarrow> limit = 2 | Exact n \<Rightarrow> limit = (if n = 0 then 2 else n) | Rounded \<Rightarrow> False"
  shows "app req s =
     (Respond 200
        (JObj [(''page'', JNum (of_int page)),
               (''limit'', JNum (of_int limit)),
               (''totalPages'', JNum (of_int \<lceil>rat_of_nat (length results) / rat_of_int limit\<rceil>)),
               (''totalItems'', JNum (of_nat (length results))),
               (''products'',
                JArr (map product_json
                  (between results
                     (from_end (int (length results)) ((page - 1) * limit))
                     (from_end (int (length results)) (page * limit)))))]),
      s)
    \<and> (0 < page \<and> 0 < limit \<or> page < 0 \<and> limit < 0 \<longrightarrow>
         between results
           (from_end (int (length results)) ((page - 1) * limit))
           (from_end (int (length results)) (page * limit))
         = between results ((page - 1) * limit) (page * limit))"
proof
  have f: "filter_category (req\<lparr>params := []\<rparr>) s = Inr results"
    using assms(3) by (auto simp add: filter_category_def q_param_def filter_throw_category)
  have pl: "or_default (q_int (req\<lparr>params := []\<rparr>) ''page'') 1 = Exact page"
    "or_default (q_int (req\<lparr>params := []\<rparr>) ''limit'') 2 = Exact limit"
    using assms(4,5)
    by (auto simp add: or_default_def q_int_def q_param_def split: js_integer.splits)
  have sl: "slice results ((page - 1) * limit) ((page - 1) * limit + limit)
      = between results (from_end (int (length results)) ((page - 1) * limit))
          (from_end (int (length results)) (page * limit))"
    by (simp add: slice_from_end algebra_simps)
  show "app req s =
     (Respond 200
        (JObj [(''page'', JNum (of_int page)),
               (''limit'', JNum (of_int limit)),
               (''totalPages'', JNum (of_int \<lceil>rat_of_nat (length results) / rat_of_int limit\<rceil>)),
               (''totalItems'', JNum (of_nat (length results))),
               (''products'',
                JArr (map product_json
                  (between results
                     (from_end (int (length results)) ((page - 1) * limit))
                     (from_end (int (length results)) (page * limit)))))]),
      s)"
    by (simp add: app_list [OF assms(1,2)] list_products_def f pl page_body_def sl settle_def
        Let_def)
  show "0 < page \<and> 0 < limit \<or> page < 0 \<and> limit < 0 \<longrightarrow>
         between results
           (from_end (int (length results)) ((page - 1) * limit))
           (from_end (int (length results)) (page * limit))
         = between results ((page - 1) * limit) (page * limit)"
  proof
    assume "0 < page \<and> 0 < limit \<or> page < 0 \<and> limit < 0"
    then have "0 \<le> (page - 1) * limit" "0 \<le> page * limit"
      by (auto simp add: zero_le_mult_iff)
    then show "between results
           (from_end (int (length results)) ((page - 1) * limit))
           (from_end (int (length results)) (page * limit))
         = between results ((page - 1) * limit) (page * limit)"
      by (simp add: from_end_def)
  qed
qed

theorem list_products_page_witness:
  "app (with_query (request_of GET [''api'', ''products''])
          [(''category'', QStr ''ELECTRONICS''), (''page'', QStr ''2''), (''limit'', QStr ''2'')])
        initial_products =
       (Respond 200
          (JObj [(''page'', JNum 2), (''limit'', JNum 2), (''totalPages'', JNum 2),
                 (''totalItems'', JNum 3),
                 (''products'', JArr [product_json (initial_products ! 4)])]),
        initial_products)
   \<and> app (with_query (request_of GET [''api'', ''products'']) [(''limit'', QStr ''-1'')])
        initial_products =
       (Respond 200
          (JObj [(''page'', JNum 1), (''limit'', JNum (- 1)), (''totalPages'', JNum (- 5)),
                 (''totalItems'', JNum 5),
                 (''products'', JArr (map product_json (take 4 initial_products)))]),
        initial_products)"
proof -
  let ?r = "with_query (request_of GET [''api'', ''products''])
          [(''category'', QStr ''ELECTRONICS''), (''page'', QStr ''2''), (''limit'', QStr ''2'')]"
  let ?n = "with_query (request_of GET [''api'', ''products'']) [(''limit'', QStr ''-1'')]"
  let ?res = "[initial_products ! 0, initial_products ! 3, initial_products ! 4]"
  have p: "parseInt ''2'' = Some 2" "parseInt ''-1'' = Some (- 1)" by code_simp+
  have lo: "toLowerCase ''ELECTRONICS'' = ''electronics''"
    "toLowerCase ''Electronics'' = ''electronics''"
    "toLowerCase ''Accessories'' = ''accessories''"
    by code_simp+
  have f: "filter (same_category ''ELECTRONICS'') initial_products = ?res"
    by (simp add: initial_products_def mk_product_def same_category_def lo)
  have strs: "\<forall>p \<in> set initial_products. \<exists>t. category p = JStr t"
    by (simp add: initial_products_def mk_product_def)
  have c: "\<lceil>rat_of_nat (length ?res) / rat_of_int 2\<rceil> = 2"
    "\<lceil>rat_of_nat 5 / rat_of_int (- 1)\<rceil> = - 5" by code_simp+
  have len: "length initial_products = 5" by (simp add: initial_products_def)
  have b: "between ?res (from_end (int (length ?res)) ((2 - 1) * 2))
             (from_end (int (length ?res)) (2 * 2)) = [initial_products ! 4]"
    by (simp add: between_def from_end_def upt_rec)
  have bn: "between initial_products (from_end (int (length initial_products)) ((1 - 1) * (- 1)))
             (from_end (int (length initial_products)) (1 * (- 1))) = take 4 initial_products"
    by (simp add: between_def from_end_def len upt_rec initial_products_def)
  have "app ?r initial_products =
     (Respond 200
        (JObj [(''page'', JNum (of_int 2)),
               (''limit'', JNum (of_int 2)),
               (''totalPages'', JNum (of_int \<lceil>rat_of_nat (length ?res) / rat_of_int 2\<rceil>)),
               (''totalItems'', JNum (of_nat (length ?res))),
               (''products'',
                JArr (map product_json
                  (between ?res (from_end (int (length ?res)) ((2 - 1) * 2))
                     (from_end (int (length ?res)) (2 * 2)))))]),
      initial_products)"
    using strs
    by (intro list_products_page [THEN conjunct1])
      (simp_all add: q_param_def q_int_def parseInt_opt_def to_number_def p f)
  then have a: "app ?r initial_products =
       (Respond 200
          (JObj [(''page'', JNum 2), (''limit'', JNum 2), (''totalPages'', JNum 2),
                 (''totalItems'', JNum 3),
                 (''products'', JArr [product_json (initial_products ! 4)])]),
        initial_products)"
    by (simp only: c b) simp
  have "app ?n initial_products =
     (Respond 200
        (JObj [(''page'', JNum (of_int 1)),
               (''limit'', JNum (of_int (- 1))),
               (''totalPages'',
                JNum (of_int \<lceil>rat_of_nat (length initial_products) / rat_of_int (- 1)\<rceil>)),
               (''totalItems'', JNum (of_nat (length initial_products))),
               (''products'',
                JArr (map product_json
                  (between initial_products
                     (from_end (int (length initial_products)) ((1 - 1) * (- 1)))
                     (from_end (int (length initial_products)) (1 * (- 1))))))]),
      initial_products)"
    by (intro list_products_page [THEN conjunct1])
      (simp_all add: q_param_def q_int_def parseInt_opt_def to_number_def p)
  then have n: "app ?n initial_products =
       (Respond 200
          (JObj [(''page'', JNum 1), (''limit'', JNum (- 1)), (''totalPages'', JNum (- 5)),
                 (''totalItems'', JNum 5),
                 (''products'', JArr (map product_json (take 4 initial_products)))]),
        initial_products)"
    using c(2) by (simp only: bn) (simp add: len)
  show ?thesis using a n by simp
qed

text \<open>
  C8. The claim: GET /products/search raises a ValidationError when \<open>name\<close> is absent and
  otherwise selects the records whose name contains it. The claim as stated fails for
  \<open>name=\<close>: the parameter is present, every name contains the empty string, yet the
  handler raises the ValidationError, because the empty string is falsy.
\<close>

theorem empty_search_keyword:
  "q_param (with_query (request_of GET [''api'', ''products'', ''search'']) [(''name'', QStr [])])
     ''name'' = Some (QStr [])
   \<and> filter (name_contains []) initial_products = initial_products
   \<and> app (with_query (request_of GET [''api'', ''products'', ''search'']) [(''name'', QStr [])])
       initial_products =
       (Respond 400
          (JObj [(''status'', JStr ''error''), (''errorType'', JStr ''ValidationError''),
                 (''message'', JStr ''Please provide a search keyword'')]), initial_products)"
  by (simp add: q_param_def app_search search_products_def settle_def error_translator_def
      ValidationError_def status_of_def or_string_def initial_products_def mk_product_def
      name_contains_def toLowerCase_def)

text \<open>
  C8, amended. For every GET /products/search request: when \<open>name\<close> is absent or empty
  the handler raises a ValidationError, answered 400; when \<open>name\<close> is a non-empty string
  and every stored name is a string, the records selected are those whose name contains
  it as a case-insensitive substring; none selected raises NotFound, answered 404; one
  or more selected is answered 200 with \<open>{count, results}\<close>, \<open>count\<close> being the length
  of \<open>results\<close>. The store is unchanged.
\<close>

theorem search_by_name:
  assumes "req_method req = GET" "path req = [''api'', ''products'', ''search'']"
  shows "(q_param req ''name'' = None \<or> q_param req ''name'' = Some (QStr []) \<longrightarrow>
           app req s =
             (Respond 400
                (JObj [(''status'', JStr ''error''), (''errorType'', JStr ''ValidationError''),
                       (''message'', JStr ''Please provide a search keyword'')]), s))
    \<and> (\<forall>kw. q_param req ''name'' = Some (QStr kw) \<and> kw \<noteq> []
            \<and> (\<forall>p \<in> set s. \<exists>t. name p = JStr t) \<longrightarrow>
          (filter (name_contains kw) s = [] \<longrightarrow>
             app req s =
               (Respond 404
                  (JObj [(''status'', JStr ''error''), (''errorType'', JStr ''NotFoundError''),
                         (''message'', JStr ''No products match your search'')]), s))
          \<and> (filter (name_contains kw) s \<noteq> [] \<longrightarrow>
             app req s =
               (Respond 200
                  (JObj [(''count'', JNum (of_nat (length (filter (name_contains kw) s)))),
                         (''results'', JArr (map product_json (filter (name_contains kw) s)))]),
                s)))"
proof (intro conjI impI allI)
  assume "q_param req ''name'' = None \<or> q_param req ''name'' = Some (QStr [])"
  then show "app req s =
             (Respond 400
                (JObj [(''status'', JStr ''error''), (''errorType'', JStr ''ValidationError''),
                       (''message'', JStr ''Please provide a search keyword'')]), s)"
    by (auto simp add: app_search [OF assms] search_products_def q_param_def settle_def
        error_translator_def ValidationError_def status_of_def or_string_def)
next
  fix kw
  assume h: "q_param req ''name'' = Some (QStr kw) \<and> kw \<noteq> []
            \<and> (\<forall>p \<in> set s. \<exists>t. name p = JStr t)"
  then have f: "filter_throw (name_includes (QStr kw)) s = Inr (filter (name_contains kw) s)"
    by (simp add: filter_throw_name)
  {
    assume "filter (name_contains kw) s = []"
    then show "app req s =
               (Respond 404
                  (JObj [(''status'', JStr ''error''), (''errorType'', JStr ''NotFoundError''),
                         (''message'', JStr ''No products match your search'')]), s)"
      using h
      by (simp add: app_search [OF assms] search_products_def q_param_def f settle_def
          error_translator_def NotFoundError_def status_of_def or_string_def)
  }
  {
    assume "filter (name_contains kw) s \<noteq> []"
    then show "app req s =
               (Respond 200
                  (JObj [(''count'', JNum (of_nat (length (filter (name_contains kw) s)))),
                         (''results'', JArr (map product_json (filter (name_contains kw) s)))]),
                s)"
      using h
      by (simp add: app_search [OF assms] search_products_def q_param_def f settle_def)
  }
qed

theorem search_by_name_witness:
  "app (with_query (request_of GET [''api'', ''products'', ''search'']) [(''name'', QStr ''TOP'')])
       initial_products =
     (Respond 200
        (JObj [(''count'', JNum 1), (''results'', JArr [product_json (initial_products ! 0)])]),
      initial_products)
   \<and> app (with_query (request_of GET [''api'', ''products'', ''search'']) [])
       initial_products =
     (Respond 400
          (JObj [(''status'', JStr ''error''), (''errorType'', JStr ''ValidationError''),
                 (''message'', JStr ''Please provide a search keyword'')]), initial_products)"
proof -
  let ?r = "with_query (request_of GET [''api'', ''products'', ''search'']) [(''name'', QStr ''TOP'')]"
  let ?e = "with_query (request_of GET [''api'', ''products'', ''search'']) []"
  have f: "filter (name_contains ''TOP'') initial_products = [initial_products ! 0]"
    by code_simp
  have strs: "\<forall>p \<in> set initial_products. \<exists>t. name p = JStr t"
    by (simp add: initial_products_def mk_product_def)
  have q: "q_param ?r ''name'' = Some (QStr ''TOP'')" "q_param ?e ''name'' = None"
    by (simp_all add: q_param_def)
  have m: "req_method ?r = GET" "path ?r = [''api'', ''products'', ''search'']"
    "req_method ?e = GET" "path ?e = [''api'', ''products'', ''search'']"
    by simp_all
  have a: "app ?r initial_products =
     (Respond 200
        (JObj [(''count'', JNum 1), (''results'', JArr [product_json (initial_products ! 0)])]),
      initial_products)"
    using search_by_name [OF m(1,2), of initial_products] q(1) strs f by simp
  have b: "app ?e initial_products =
     (Respond 400
          (JObj [(''status'', JStr ''error''), (''errorType'', JStr ''ValidationError''),
                 (''message'', JStr ''Please provide a search keyword'')]), initial_products)"
    using search_by_name [OF m(3,4), of initial_products] q(2) by simp
  show ?thesis using a b by simp
qed

text \<open>
  C9. PUT /products/{id} is a partial update. When no record has the id that the path
  segment parses to, the answer is 404 and the store is unchanged. Otherwise the first
  record with that id (record \<open>i\<close>) is replaced, in place, by the record in which each of
  \<open>name\<close>, \<open>description\<close>, \<open>price\<close>, \<open>category\<close> and \<open>inStock\<close> has the value the body
  supplies when that value is present and not \<open>null\<close>, and its prior value otherwise; the
  \<open>id\<close> is the prior one, every other record is untouched, and the answer is 200 with
  the updated record.
\<close>

theorem put_partial_update:
  assumes "req_method req = PUT" "path req = [''api'', ''products'', seg]" "seg \<noteq> []"
  shows "((\<forall>p \<in> set s. Some (pid p) \<noteq> parseInt seg) \<longrightarrow>
            app req s = (Respond 404 (JObj [(''message'', JStr ''Product not found'')]), s))
    \<and> (\<forall>i < length s.
          Some (pid (s ! i)) = parseInt seg \<and> (\<forall>j<i. Some (pid (s ! j)) \<noteq> parseInt seg) \<longrightarrow>
          (let updated = (s ! i)
                 \<lparr>name := supplied (body req) ''name'' (name (s ! i)),
                  description := supplied (body req) ''description'' (description (s ! i)),
                  price := supplied (body req) ''price'' (price (s ! i)),
                  category := supplied (body req) ''category'' (category (s ! i)),
                  inStock := supplied (body req) ''inStock'' (inStock (s ! i))\<rparr>
           in pid updated = pid (s ! i)
              \<and> app req s = (Respond 200 (product_json updated), s[i := updated])))"
proof (intro conjI impI allI)
  assume "\<forall>p \<in> set s. Some (pid p) \<noteq> parseInt seg"
  then show "app req s = (Respond 404 (JObj [(''message'', JStr ''Product not found'')]), s)"
    by (simp add: app_update [OF assms] update_product_def id_param_def parseInt_opt_def
        find_has_id_absent message_body_def)
next
  fix i
  assume i: "i < length s"
    and hit: "Some (pid (s ! i)) = parseInt seg \<and> (\<forall>j<i. Some (pid (s ! j)) \<noteq> parseInt seg)"
  have "find (has_id (parseInt seg)) s = Some (s ! i)
      \<and> update_found (has_id (parseInt seg)) (overlay (body req)) s
          = s[i := overlay (body req) (s ! i)]
      \<and> findIndex (has_id (parseInt seg)) s = Some i"
    using i hit by (intro first_found) (simp_all add: has_id_iff)
  then show "let updated = (s ! i)
                 \<lparr>name := supplied (body req) ''name'' (name (s ! i)),
                  description := supplied (body req) ''description'' (description (s ! i)),
                  price := supplied (body req) ''price'' (price (s ! i)),
                  category := supplied (body req) ''category'' (category (s ! i)),
                  inStock := supplied (body req) ''inStock'' (inStock (s ! i))\<rparr>
           in pid updated = pid (s ! i)
              \<and> app req s = (Respond 200 (product_json updated), s[i := updated])"
    by (simp add: app_update [OF assms] update_product_def id_param_def parseInt_opt_def
        overlay_def coalesce_supplied Let_def)
qed

theorem put_partial_update_witness:
  "app ((request_of PUT [''api'', ''products'', ''1''])\<lparr>body := [(''price'', JNum 999)]\<rparr>)
     initial_products
   = (Respond 200
        (product_json (mk_product 1 ''Laptop'' ''15-inch screen'' 999 ''Electronics'' True)),
      initial_products[0 := mk_product 1 ''Laptop'' ''15-inch screen'' 999 ''Electronics'' True])
   \<and> app ((request_of PUT [''api'', ''products'', ''9''])\<lparr>body := [(''price'', JNum 999)]\<rparr>)
     initial_products
   = (Respond 404 (JObj [(''message'', JStr ''Product not found'')]), initial_products)"
proof -
  let ?r1 = "(request_of PUT [''api'', ''products'', ''1''])\<lparr>body := [(''price'', JNum 999)]\<rparr>"
  let ?r9 = "(request_of PUT [''api'', ''products'', ''9''])\<lparr>body := [(''price'', JNum 999)]\<rparr>"
  have p1: "parseInt ''1'' = Some 1" by code_simp
  have p9: "parseInt ''9'' = Some 9" by code_simp
  have "\<forall>i < length initial_products.
          Some (pid (initial_products ! i)) = parseInt ''1''
          \<and> (\<forall>j<i. Some (pid (initial_products ! j)) \<noteq> parseInt ''1'') \<longrightarrow>
          (let updated = (initial_products ! i)
                 \<lparr>name := supplied (body ?r1) ''name'' (name (initial_products ! i)),
                  description :=
                    supplied (body ?r1) ''description'' (description (initial_products ! i)),
                  price := supplied (body ?r1) ''price'' (price (initial_products ! i)),
                  category := supplied (body ?r1) ''category'' (category (initial_products ! i)),
                  inStock := supplied (body ?r1) ''inStock'' (inStock (initial_products ! i))\<rparr>
           in pid updated = pid (initial_products ! i)
              \<and> app ?r1 initial_products
                  = (Respond 200 (product_json updated), initial_products[i := updated]))"
    using put_partial_update [of ?r1 "''1''" initial_products] by simp
  then have a: "app ?r1 initial_products
      = (Respond 200
           (product_json (mk_product 1 ''Laptop'' ''15-inch screen'' 999 ''Electronics'' True)),
         initial_products[0 := mk_product 1 ''Laptop'' ''15-inch screen'' 999 ''Electronics'' True])"
    by (drule_tac x = 0 in spec)
      (simp add: p1 supplied_def initial_products_def mk_product_def Let_def)
  have "(\<forall>p \<in> set initial_products. Some (pid p) \<noteq> parseInt ''9'') \<longrightarrow>
      app ?r9 initial_products
        = (Respond 404 (JObj [(''message'', JStr ''Product not found'')]), initial_products)"
    using put_partial_update [of ?r9 "''9''" initial_products] by simp
  then have b: "app ?r9 initial_products
      = (Respond 404 (JObj [(''message'', JStr ''Product not found'')]), initial_products)"
    by (simp add: p9 initial_products_def mk_product_def)
  show ?thesis using a b by simp
qed

text \<open>
  C10. The claim: the live GET /products/{id} handler reads the id segment by its decimal
  digit prefix. The claim as stated fails on the segment \<open>0x5\<close>: its decimal prefix is
  \<open>0\<close>, which no record of the initial store has as id, yet the handler answers 200
  with record 5, because \<open>parseInt\<close> without a radix reads \<open>0x5\<close> as hexadecimal.
\<close>

theorem hex_segment_counterexample:
  "decimal_prefix ''0x5'' = Some 0
   \<and> find (has_id (decimal_prefix ''0x5'')) initial_products = None
   \<and> app (request_of GET [''api'', ''products'', ''0x5'']) initial_products =
       (Respond 200 (product_json (mk_product 5 ''Monitor'' ''27-inch display'' (349999 / 100) ''Electronics'' True)), initial_products)"
proof -
  have d: "decimal_prefix ''0x5'' = Some 0" by code_simp
  have p: "parseInt ''0x5'' = Some 5" by code_simp
  show ?thesis
    by (simp add: d get_product_app p)
      (simp add: initial_products_def has_id_def mk_product_def)
qed

text \<open>
  C10, amended. The live GET /products/{id} handler (any segment but \<open>search\<close> in any
  letter case, which the search route takes) reads the segment as \<open>parseInt\<close> without a
  radix does: leading white space is skipped, a leading \<open>-\<close> negates and a leading
  \<open>+\<close> is dropped, a \<open>0x\<close> or \<open>0X\<close> prefix selects the longest run of hexadecimal
  digits and otherwise the longest run of decimal digits is taken; the record looked up
  is the first one with that id. For a segment that starts with a decimal digit and has
  no \<open>0x\<close> prefix (\<open>7abc\<close>), the id is the value of its decimal digit prefix. When
  the segment yields no id, or the id is the id of no stored record, the answer is 404
  with the body \<open>{message: "Product not found"}\<close>. The handler always answers (it never
  throws) and leaves the store unchanged.
\<close>

theorem get_by_id_uses_parseInt:
  assumes "req_method req = GET" "path req = [''api'', ''products'', seg]"
    "seg \<noteq> []" "toLowerCase seg \<noteq> ''search''"
  shows "app req s =
       (case find (\<lambda>p. Some (pid p) = segment_id seg) s of
          None \<Rightarrow> (Respond 404 (JObj [(''message'', JStr ''Product not found'')]), s)
        | Some p \<Rightarrow> (Respond 200 (product_json p), s))
    \<and> (is_digit 10 (hd seg) \<and> \<not> hex_prefixed seg \<longrightarrow> segment_id seg = decimal_prefix seg)
    \<and> (segment_id seg = None \<or> (\<forall>p \<in> set s. Some (pid p) \<noteq> segment_id seg) \<longrightarrow>
          app req s = (Respond 404 (JObj [(''message'', JStr ''Product not found'')]), s))
    \<and> (\<exists>st b. fst (app req s) = Respond st b)
    \<and> snd (app req s) = s"
proof -
  have ns: "seg \<noteq> ''search''"
    using assms(4) lower_search by auto
  have eq: "app req s =
       (case find (\<lambda>p. Some (pid p) = segment_id seg) s of
          None \<Rightarrow> (Respond 404 (JObj [(''message'', JStr ''Product not found'')]), s)
        | Some p \<Rightarrow> (Respond 200 (product_json p), s))"
    using get_product_app [OF assms(1,2,3) ns, of s]
    by (simp add: parseInt_segment_id has_id_fun)
  have dec: "is_digit 10 (hd seg) \<and> \<not> hex_prefixed seg \<longrightarrow> segment_id seg = decimal_prefix seg"
    using assms(3) parseInt_decimal [of seg "hd seg" "tl seg"]
    by (auto simp add: parseInt_segment_id)
  have miss: "segment_id seg = None \<or> (\<forall>p \<in> set s. Some (pid p) \<noteq> segment_id seg) \<longrightarrow>
      app req s = (Respond 404 (JObj [(''message'', JStr ''Product not found'')]), s)"
    using find_has_id_absent [of s "segment_id seg"] find_has_id_None [of s]
    by (auto simp add: eq has_id_fun)
  have resp: "\<exists>st b. fst (app req s) = Respond st b"
    by (simp add: eq split: option.splits)
  have same: "snd (app req s) = s"
    by (simp add: eq split: option.splits)
  show ?thesis using eq dec miss resp same by blast
qed

theorem get_by_id_uses_parseInt_witness:
  "app (request_of GET [''api'', ''products'', '' 4'']) initial_products =
       (Respond 200 (product_json (initial_products ! 3)), initial_products)
   \<and> app (request_of GET [''api'', ''products'', ''+3'']) initial_products =
       (Respond 200 (product_json (initial_products ! 2)), initial_products)
   \<and> app (request_of GET [''api'', ''products'', ''0X5'']) initial_products =
       (Respond 200 (product_json (initial_products ! 4)), initial_products)
   \<and> app (request_of GET [''api'', ''products'', ''2abc'']) initial_products =
       (Respond 200 (product_json (initial_products ! 1)), initial_products)
   \<and> segment_id ''-0x5'' = Some (- 5)
   \<and> app (request_of GET [''api'', ''products'', ''-0x5'']) initial_products =
       (Respond 404 (JObj [(''message'', JStr ''Product not found'')]), initial_products)"
proof -
  have ids: "segment_id '' 4'' = Some 4" "segment_id ''+3'' = Some 3"
    "segment_id ''0X5'' = Some 5" "segment_id ''2abc'' = Some 2"
    "segment_id ''-0x5'' = Some (- 5)"
    by code_simp+
  have lo: "toLowerCase '' 4'' \<noteq> ''search''" "toLowerCase ''+3'' \<noteq> ''search''"
    "toLowerCase ''0X5'' \<noteq> ''search''" "toLowerCase ''2abc'' \<noteq> ''search''"
    "toLowerCase ''-0x5'' \<noteq> ''search''"
    by (simp_all add: toLowerCase_def)
  have look: "app (request_of GET [''api'', ''products'', seg]) initial_products =
       (case find (\<lambda>p. Some (pid p) = segment_id seg) initial_products of
          None \<Rightarrow> (Respond 404 (JObj [(''message'', JStr ''Product not found'')]),
                   initial_products)
        | Some p \<Rightarrow> (Respond 200 (product_json p), initial_products))"
    if "seg \<noteq> []" "toLowerCase seg \<noteq> ''search''" for seg
    using get_by_id_uses_parseInt [of "request_of GET [''api'', ''products'', seg]" seg
        initial_products, OF request_of_fields(1) request_of_fields(2) that]
    by blast
  have a: "app (request_of GET [''api'', ''products'', '' 4'']) initial_products =
       (Respond 200 (product_json (initial_products ! 3)), initial_products)"
    by (simp add: look lo ids) (simp add: initial_products_def mk_product_def)
  have b: "app (request_of GET [''api'', ''products'', ''+3'']) initial_products =
       (Respond 200 (product_json (initial_products ! 2)), initial_products)"
    by (simp add: look lo ids) (simp add: initial_products_def mk_product_def)
  have c: "app (request_of GET [''api'', ''products'', ''0X5'']) initial_products =
       (Respond 200 (product_json (initial_products ! 4)), initial_products)"
    by (simp add: look lo ids) (simp add: initial_products_def mk_product_def)
  have d: "app (request_of GET [''api'', ''products'', ''2abc'']) initial_products =
       (Respond 200 (product_json (initial_products ! 1)), initial_products)"
    by (simp add: look lo ids) (simp add: initial_products_def mk_product_def)
  have e: "app (request_of GET [''api'', ''products'', ''-0x5'']) initial_products =
       (Respond 404 (JObj [(''message'', JStr ''Product not found'')]), initial_products)"
    by (simp add: look lo ids) (simp add: initial_products_def mk_product_def)
  show ?thesis using a b c d e ids(5) by simp
qed

end
